theory Spec2Isabelle
  imports Complex_Main "HOL-Library.Word"
begin

section \<open>JavaScript helpers used by the ingestion job\<close>

text \<open>
  \<^verbatim>\<open>Array.prototype.slice(start, end)\<close>: a negative index counts from the end of the
  array, both indices are clamped to the array, and an end before the start gives the empty
  array.
\<close>

definition relIndex :: "nat \<Rightarrow> int \<Rightarrow> nat" where
  "relIndex len i = (if i < 0 then nat (max (int len + i) 0) else min (nat i) len)"

definition js_slice :: "'a list \<Rightarrow> int \<Rightarrow> int \<Rightarrow> 'a list" where
  "js_slice xs start fin =
     (let k = relIndex (length xs) start;
          final = relIndex (length xs) fin
      in take (final - k) (drop k xs))"

text \<open>
  A number that identifies a station or a sensor is a non-negative safe integer (below
  \<open>2^53\<close>); for these \<^verbatim>\<open>Number::toString\<close> prints the decimal digits. An identifier
  from a JSON document or a database record is such a number or a string; a field that is
  absent is \<open>None\<close>. Strings are sequences of bytes (the UTF-8 encoding of the JavaScript
  string). \<open>truthy\<close> is JavaScript's truthiness of such a field, \<open>propertyKey\<close> the string
  a value becomes when it is used as a property name or interpolated in a template literal.
\<close>

type_synonym jsnum = "53 word"

datatype jsid = IdNum jsnum | IdStr string

fun truthy :: "jsid option \<Rightarrow> bool" where
  "truthy None = False"
| "truthy (Some (IdNum n)) = (n \<noteq> 0)"
| "truthy (Some (IdStr s)) = (s \<noteq> [])"

definition truthyNum :: "jsnum option \<Rightarrow> bool" where
  "truthyNum n = (case n of None \<Rightarrow> False | Some k \<Rightarrow> k \<noteq> 0)"

fun digitsOf :: "nat \<Rightarrow> string" where
  "digitsOf n = (if n < 10 then [''0123456789'' ! n]
                 else digitsOf (n div 10) @ [''0123456789'' ! (n mod 10)])"

declare digitsOf.simps [simp del]

definition numberToString :: "jsnum \<Rightarrow> string" where
  "numberToString n = digitsOf (unat n)"

fun propertyKey :: "jsid option \<Rightarrow> string" where
  "propertyKey None = ''undefined''"
| "propertyKey (Some (IdNum n)) = numberToString n"
| "propertyKey (Some (IdStr s)) = s"

definition numberKey :: "jsnum option \<Rightarrow> string" where
  "numberKey n = (case n of None \<Rightarrow> ''undefined'' | Some k \<Rightarrow> numberToString k)"

text \<open>
  \<^verbatim>\<open>String.prototype.toLowerCase\<close> is a function of the host, over the whole of Unicode;
  the functions that call it take it as the parameter \<open>lc\<close>. On a string of ASCII
  characters it lower-cases the letters A to Z, which is \<open>asciiToLowerCase\<close>.
\<close>

definition asciiLowerChar :: "char \<Rightarrow> char" where
  "asciiLowerChar c =
     (case c of Char b0 b1 b2 b3 b4 b5 b6 b7 \<Rightarrow>
        if 65 \<le> (of_char c :: nat) \<and> (of_char c :: nat) \<le> 90
        then Char b0 b1 b2 b3 b4 True b6 b7 else c)"

definition asciiToLowerCase :: "string \<Rightarrow> string" where
  "asciiToLowerCase s = map asciiLowerChar s"

text \<open>
  A value read from a JSON payload or held in a record's \<^verbatim>\<open>value\<close> field:
  \<^verbatim>\<open>undefined\<close> (the field is absent), \<^verbatim>\<open>null\<close>, or a number.
\<close>

datatype jsvalue = JUndefined | JNull | JNumber real

text \<open>A draw of \<^verbatim>\<open>Math.random()\<close>: a number that is at least 0 and less than 1.\<close>

typedef draw = "{r::real. 0 \<le> r \<and> r < 1}"
  by (rule exI [of _ 0]) simp

text \<open>
  An object created by \<^verbatim>\<open>{}\<close> and used as a dictionary. It has its own properties and
  a prototype, at first \<^verbatim>\<open>Object.prototype\<close> (\<open>o_proto = None\<close>). An assignment
  \<^verbatim>\<open>obj[k] = v\<close> of an object \<open>v\<close> creates or replaces the own property \<open>k\<close>, except
  for \<open>k = __proto__\<close>, which makes \<open>v\<close> the prototype of the object. A read
  \<^verbatim>\<open>obj[k]\<close> gives the own property; else, when the prototype has been replaced by
  \<open>v\<close>, the own property \<open>k\<close> of \<open>v\<close>; else the member \<open>k\<close> of
  \<^verbatim>\<open>Object.prototype\<close>, where \<open>__proto__\<close> reads the object's prototype; else
  \<^verbatim>\<open>undefined\<close>. The parameter \<open>props\<close> gives, for an object stored in the dictionary,
  its own property names and whether the value of each is truthy.
\<close>

definition objectPrototypeKeys :: "string list" where
  "objectPrototypeKeys =
     [''constructor'', ''__defineGetter__'', ''__defineSetter__'', ''hasOwnProperty'',
      ''__lookupGetter__'', ''__lookupSetter__'', ''isPrototypeOf'', ''propertyIsEnumerable'',
      ''toString'', ''valueOf'', ''__proto__'', ''toLocaleString'']"

record 'v jsobject =
  o_own :: "string \<rightharpoonup> 'v"
  o_proto :: "'v option"

datatype 'v jsprop =
    Own 'v
  | Prototype 'v
  | Inherited 'v string
  | Member string
  | ObjectPrototype

definition emptyObject :: "'v jsobject" where
  "emptyObject = \<lparr> o_own = Map.empty, o_proto = None \<rparr>"

definition setProp :: "'v jsobject \<Rightarrow> string \<Rightarrow> 'v \<Rightarrow> 'v jsobject" where
  "setProp obj k v =
     (if k = ''__proto__'' then obj\<lparr> o_proto := Some v \<rparr>
      else obj\<lparr> o_own := (o_own obj)(k \<mapsto> v) \<rparr>)"

definition fromObjectPrototype :: "'v jsprop \<Rightarrow> string \<Rightarrow> 'v jsprop option" where
  "fromObjectPrototype protoValue k =
     (if k = ''__proto__'' then Some protoValue
      else if k \<in> set objectPrototypeKeys then Some (Member k)
      else None)"

definition getProp :: "('v \<Rightarrow> string \<rightharpoonup> bool) \<Rightarrow> 'v jsobject \<Rightarrow> string \<Rightarrow> 'v jsprop option" where
  "getProp props obj k =
     (case o_own obj k of
        Some v \<Rightarrow> Some (Own v)
      | None \<Rightarrow>
          (case o_proto obj of
             None \<Rightarrow> fromObjectPrototype ObjectPrototype k
           | Some p \<Rightarrow>
               (case props p k of
                  Some b \<Rightarrow> Some (Inherited p k)
                | None \<Rightarrow> fromObjectPrototype (Prototype p) k)))"

definition truthyProp :: "('v \<Rightarrow> string \<rightharpoonup> bool) \<Rightarrow> 'v jsprop \<Rightarrow> bool" where
  "truthyProp props p = (case p of Inherited v k \<Rightarrow> props v k = Some True | _ \<Rightarrow> True)"

section \<open>Data model\<close>

text \<open>
  The documents of the collections \<^verbatim>\<open>stations\<close>, \<^verbatim>\<open>sensors\<close>,
  \<^verbatim>\<open>hourlymeasurements\<close> and \<^verbatim>\<open>lambjobprogress\<close>, and the records of the upstream
  API. \<open>st_oid\<close> and \<open>s_oid\<close> are the \<^verbatim>\<open>_id\<close> of a document. Dates are time values.
  Of an upstream location the matcher reads \<^verbatim>\<open>id\<close> and \<^verbatim>\<open>name\<close>; \<open>l_others\<close>
  lists its other properties, each with the truthiness of its value.
\<close>

record location =
  l_id :: "jsid option"
  l_name :: "string option"
  l_others :: "(string \<times> bool) list"

record station =
  st_oid :: nat
  st_id :: "jsid option"
  st_name :: "string option"
  st_coordinates :: "(real \<times> real) option"
  st_lastDataUpdate :: "int option"

record parameter =
  p_id :: int
  p_name :: string
  p_units :: string
  p_displayName :: string

record sensor =
  s_oid :: nat
  s_station :: nat
  s_id :: "jsnum option"
  s_openaqSensorId :: "jsnum option"
  s_parameter :: "parameter option"
  s_value :: jsvalue
  s_lastUpdated :: "int option"
  s_isSimulated :: "bool option"

record hourly =
  h_station :: nat
  h_parameter :: parameter
  h_value :: jsvalue
  h_isSimulated :: bool
  h_timestamp :: int
  h_createdAt :: int

record checkpoint =
  cp_lastRunTime :: int
  cp_lastOffset :: int
  cp_nextOffset :: int
  cp_totalStations :: int
  cp_batchesCompleted :: nat
  cp_totalBatches :: nat
  cp_isFullyComplete :: bool

record db =
  stationCollection :: "station list"
  sensorCollection :: "sensor list"
  measurementCollection :: "hourly list"
  progressCollection :: "checkpoint option"

text \<open>
  One element of the \<^verbatim>\<open>results\<close> array of \<^verbatim>\<open>/locations/{id}/latest\<close>, when it is
  an object; the sensor it belongs to is given by a number.
\<close>

record reading =
  sensorsId :: "jsnum option"
  r_value :: jsvalue

section \<open>Partition planner (la-hourly-sync.js, handler, the paging logic)\<close>

text \<open>
  \<^verbatim>\<open>
  const totalStations = allLaStations.length;
  const endOffset = Math.min(STATIONS_OFFSET + MAX_STATIONS_PER_RUN, totalStations);
  const laStations = allLaStations.slice(STATIONS_OFFSET, endOffset);
  \<close>
  The offset and the window come from \<^verbatim>\<open>parseInt\<close> of an environment variable, so they
  are integers of either sign (a variable that does not parse, which gives \<^verbatim>\<open>NaN\<close>, is
  left out).
\<close>

definition endOffset :: "int \<Rightarrow> int \<Rightarrow> int \<Rightarrow> int" where
  "endOffset offset maxPerRun tot = min (offset + maxPerRun) tot"

definition laStations :: "'a list \<Rightarrow> int \<Rightarrow> int \<Rightarrow> 'a list" where
  "laStations allLaStations offset maxPerRun =
     js_slice allLaStations offset (endOffset offset maxPerRun (int (length allLaStations)))"

record paging =
  totalStations :: int
  processedOffset :: int
  processedCount :: nat
  remainingStations :: int
  isComplete :: bool

definition pagingOf :: "'a list \<Rightarrow> int \<Rightarrow> int \<Rightarrow> paging" where
  "pagingOf allLaStations offset maxPerRun =
     (let tot = int (length allLaStations);
          e = endOffset offset maxPerRun tot
      in \<lparr> totalStations = tot,
           processedOffset = offset,
           processedCount = length (laStations allLaStations offset maxPerRun),
           remainingStations = tot - e,
           isComplete = (e \<ge> tot) \<rparr>)"

text \<open>The value written to the checkpoint: \<^verbatim>\<open>endOffset >= totalStations ? 0 : endOffset\<close>.\<close>

definition nextOffset :: "int \<Rightarrow> int \<Rightarrow> int \<Rightarrow> int" where
  "nextOffset offset maxPerRun tot =
     (let e = endOffset offset maxPerRun tot
      in if e \<ge> tot then 0 else e)"

text \<open>
  One full cycle of runs: each run takes its slice and the next run starts at the
  \<open>nextOffset\<close> the run recorded; the cycle ends with the run that wraps to zero. The
  number of runs is bounded by the fuel, so a cycle that never wraps is \<open>None\<close>.
\<close>

fun runCycle :: "nat \<Rightarrow> 'a list \<Rightarrow> int \<Rightarrow> int \<Rightarrow> 'a list list option" where
  "runCycle 0 allLaStations maxPerRun offset = None"
| "runCycle (Suc fuel) allLaStations maxPerRun offset =
     (let nxt = nextOffset offset maxPerRun (int (length allLaStations));
          sl = laStations allLaStations offset maxPerRun
      in if nxt = 0 then Some [sl]
         else map_option ((#) sl) (runCycle fuel allLaStations maxPerRun nxt))"

section \<open>Resilient fetch client (la-hourly-sync.js, fetchWithRetry)\<close>

text \<open>
  The network is a function from the URL and the number of the call to what \<^verbatim>\<open>fetch\<close>
  does on that call: it rejects (a network failure), or it resolves to a response with a
  status, a text and the result of parsing the body as JSON (\<open>Inl\<close> when
  \<^verbatim>\<open>response.json()\<close> throws). An error value is either the
  \<^verbatim>\<open>new Error(`HTTP error ${status}: ${text}`)\<close> of the source or whatever the failed
  call threw. \<^verbatim>\<open>lastError\<close> starts \<^verbatim>\<open>undefined\<close>, here \<open>None\<close>. The run records
  the delays waited, in milliseconds, and the number of calls made.
\<close>

datatype jserror = HttpError nat string | Failure string

datatype 'j fetched = Rejected string | Response nat string "string + 'j"

definition response_ok :: "nat \<Rightarrow> bool" where
  "response_ok status = (200 \<le> status \<and> status < 300)"

text \<open>The body of the \<^verbatim>\<open>try\<close> block after the delay: \<open>Inl\<close> is what the \<^verbatim>\<open>catch\<close> receives.\<close>

definition attemptOnce :: "'j fetched \<Rightarrow> jserror + 'j" where
  "attemptOnce f =
     (case f of
        Rejected msg \<Rightarrow> Inl (Failure msg)
      | Response status text body \<Rightarrow>
          if response_ok status
          then (case body of Inl msg \<Rightarrow> Inl (Failure msg) | Inr j \<Rightarrow> Inr j)
          else Inl (HttpError status text))"

text \<open>\<^verbatim>\<open>const delayMs = 2000 * Math.pow(2, attempt)\<close>, waited when \<^verbatim>\<open>attempt > 0\<close>.\<close>

definition delayMs :: "nat \<Rightarrow> nat" where
  "delayMs attempt = 2000 * 2 ^ attempt"

record 'j fetchRun =
  outcome :: "jserror option + 'j"
  delays :: "nat list"
  attempts :: nat

function fetchLoop ::
  "(nat \<Rightarrow> 'j fetched) \<Rightarrow> nat \<Rightarrow> nat \<Rightarrow> jserror option \<Rightarrow> nat list \<Rightarrow> 'j fetchRun" where
  "fetchLoop net maxRetries attempt lastError waited =
     (if attempt < maxRetries then
        (let waited' = (if attempt > 0 then waited @ [delayMs attempt] else waited)
         in case attemptOnce (net attempt) of
              Inr j \<Rightarrow> \<lparr> outcome = Inr j, delays = waited', attempts = Suc attempt \<rparr>
            | Inl err \<Rightarrow> fetchLoop net maxRetries (Suc attempt) (Some err) waited')
      else \<lparr> outcome = Inl lastError, delays = waited, attempts = attempt \<rparr>)"
  by pat_completeness auto
termination
  by (relation "measure (\<lambda>(net, maxRetries, attempt, lastError, waited). maxRetries - attempt)") auto

declare fetchLoop.simps [simp del]

definition fetchWithRetry :: "(string \<Rightarrow> nat \<Rightarrow> 'j fetched) \<Rightarrow> string \<Rightarrow> nat \<Rightarrow> 'j fetchRun" where
  "fetchWithRetry net url maxRetries = fetchLoop (net url) maxRetries 0 None []"

definition fetchWithRetryDefault :: "(string \<Rightarrow> nat \<Rightarrow> 'j fetched) \<Rightarrow> string \<Rightarrow> 'j fetchRun" where
  "fetchWithRetryDefault net url = fetchWithRetry net url 3"

section \<open>Hour alignment (la-hourly-sync.js, handler)\<close>

text \<open>
  \<^verbatim>\<open>const currentTime = new Date(); currentTime.setMinutes(0, 0, 0);\<close>
  A \<^verbatim>\<open>Date\<close> holds a time value, the milliseconds since the epoch.
  \<^verbatim>\<open>setMinutes(min, sec, ms)\<close> takes the local time of the time value, keeps its day and
  hour, replaces minutes, seconds and milliseconds, and converts back (ECMAScript's
  \<open>LocalTime\<close>, \<open>MakeTime\<close>, \<open>MakeDate\<close>, \<open>UTC\<close>). The rules of the host's time zone are
  the two functions of \<open>zone\<close>: the offset in effect at a time value (\<open>LocalTZA(t, true)\<close>),
  and the offset by which a local time is read (\<open>LocalTZA(t, false)\<close>: where a local hour
  is repeated or skipped at a transition, the offset before the transition). Time values are
  within the range of a \<^verbatim>\<open>Date\<close>, as the current time is.
\<close>

definition msPerSecond :: int where "msPerSecond = 1000"
definition msPerMinute :: int where "msPerMinute = 60000"
definition msPerHour :: int where "msPerHour = 3600000"
definition msPerDay :: int where "msPerDay = 86400000"

record zone =
  z_utc :: "int \<Rightarrow> int"
  z_local :: "int \<Rightarrow> int"

definition LocalTime :: "zone \<Rightarrow> int \<Rightarrow> int" where
  "LocalTime z t = t + z_utc z t"

definition UTC :: "zone \<Rightarrow> int \<Rightarrow> int" where
  "UTC z t = t - z_local z t"

definition Day :: "int \<Rightarrow> int" where
  "Day t = t div msPerDay"

definition HourFromTime :: "int \<Rightarrow> int" where
  "HourFromTime t = (t div msPerHour) mod 24"

definition MinFromTime :: "int \<Rightarrow> int" where
  "MinFromTime t = (t div msPerMinute) mod 60"

definition SecFromTime :: "int \<Rightarrow> int" where
  "SecFromTime t = (t div msPerSecond) mod 60"

definition msFromTime :: "int \<Rightarrow> int" where
  "msFromTime t = t mod msPerSecond"

definition MakeTime :: "int \<Rightarrow> int \<Rightarrow> int \<Rightarrow> int \<Rightarrow> int" where
  "MakeTime hour mn sec ms = hour * msPerHour + mn * msPerMinute + sec * msPerSecond + ms"

definition MakeDate :: "int \<Rightarrow> int \<Rightarrow> int" where
  "MakeDate day time = day * msPerDay + time"

definition setMinutes :: "zone \<Rightarrow> int \<Rightarrow> int \<Rightarrow> int \<Rightarrow> int \<Rightarrow> int" where
  "setMinutes z t mn sec ms =
     (let lt = LocalTime z t
      in UTC z (MakeDate (Day lt) (MakeTime (HourFromTime lt) mn sec ms)))"

definition alignHour :: "zone \<Rightarrow> int \<Rightarrow> int" where
  "alignHour z t = setMinutes z t 0 0 0"

text \<open>Two time values lie in the same clock hour: same local day and same local hour.\<close>

definition sameClockHour :: "zone \<Rightarrow> int \<Rightarrow> int \<Rightarrow> bool" where
  "sameClockHour z t1 t2 =
     (Day (LocalTime z t1) = Day (LocalTime z t2)
      \<and> HourFromTime (LocalTime z t1) = HourFromTime (LocalTime z t2))"

text \<open>
  A zone with a fixed offset from UTC (UTC itself is \<open>fixedZone 0\<close>), and the rules of
  America/Los_Angeles between the transitions of March 2023 and March 2024: seven hours
  behind UTC until 2023-11-05 09:00 UTC, eight hours behind from then on.
\<close>

definition fixedZone :: "int \<Rightarrow> zone" where
  "fixedZone tza = \<lparr> z_utc = (\<lambda>t. tza), z_local = (\<lambda>t. tza) \<rparr>"

definition losAngeles2023 :: zone where
  "losAngeles2023 =
     \<lparr> z_utc = (\<lambda>t. if t < 1699174800000 then - 25200000 else - 28800000),
       z_local = (\<lambda>t. if t < 1699174800000 - 25200000 then - 25200000 else - 28800000) \<rparr>"

section \<open>Site matcher (fixed-index.js, matchStations)\<close>

text \<open>
  \<^verbatim>\<open>locationMap\<close> is one object used as a dictionary: the keys assigned are the property
  keys of the truthy upstream ids and the lower-cased truthy upstream names. A local site is
  looked up by the property key of its truthy id, then by its lower-cased truthy name; a
  lookup succeeds when the value read is truthy, and that value is what the match records
  as \<^verbatim>\<open>openaqLocation\<close>.
\<close>

definition locationProps :: "location \<Rightarrow> string \<rightharpoonup> bool" where
  "locationProps loc k =
     (if k = ''id'' then map_option (\<lambda>i. truthy (Some i)) (l_id loc)
      else if k = ''name'' then map_option (\<lambda>n. n \<noteq> []) (l_name loc)
      else map_of (l_others loc) k)"

datatype matchType = ById | ByName

record match =
  dbStation :: station
  openaqLocation :: "location jsprop"
  matchType :: matchType

definition nameKey :: "(string \<Rightarrow> string) \<Rightarrow> string option \<Rightarrow> string option" where
  "nameKey lc name = (case name of None \<Rightarrow> None | Some s \<Rightarrow> if s = [] then None else Some (lc s))"

definition idKey :: "jsid option \<Rightarrow> string option" where
  "idKey i = (if truthy i then Some (propertyKey i) else None)"

definition putLocation ::
  "(string \<Rightarrow> string) \<Rightarrow> location jsobject \<Rightarrow> location \<Rightarrow> location jsobject" where
  "putLocation lc locationMap loc =
     (let m1 = (case idKey (l_id loc) of None \<Rightarrow> locationMap | Some k \<Rightarrow> setProp locationMap k loc)
      in case nameKey lc (l_name loc) of None \<Rightarrow> m1 | Some k \<Rightarrow> setProp m1 k loc)"

fun buildLocationMap ::
  "(string \<Rightarrow> string) \<Rightarrow> location jsobject \<Rightarrow> location list \<Rightarrow> location jsobject" where
  "buildLocationMap lc locationMap [] = locationMap"
| "buildLocationMap lc locationMap (loc # locs) =
     buildLocationMap lc (putLocation lc locationMap loc) locs"

definition lookupLocation :: "location jsobject \<Rightarrow> string \<Rightarrow> location jsprop option" where
  "lookupLocation locationMap k =
     (case getProp locationProps locationMap k of
        None \<Rightarrow> None
      | Some p \<Rightarrow> if truthyProp locationProps p then Some p else None)"

fun matchLoop ::
  "(string \<Rightarrow> string) \<Rightarrow> location jsobject \<Rightarrow> station list \<Rightarrow> match list \<Rightarrow> station list
     \<Rightarrow> match list \<times> station list" where
  "matchLoop lc locationMap [] matchedStations unmatchedStations =
     (matchedStations, unmatchedStations)"
| "matchLoop lc locationMap (s # ss) matchedStations unmatchedStations =
     (case Option.bind (idKey (st_id s)) (lookupLocation locationMap) of
        Some found \<Rightarrow>
          matchLoop lc locationMap ss
            (matchedStations @ [\<lparr> dbStation = s, openaqLocation = found, matchType = ById \<rparr>])
            unmatchedStations
      | None \<Rightarrow>
          (case Option.bind (nameKey lc (st_name s)) (lookupLocation locationMap) of
             Some found \<Rightarrow>
               matchLoop lc locationMap ss
                 (matchedStations @ [\<lparr> dbStation = s, openaqLocation = found, matchType = ByName \<rparr>])
                 unmatchedStations
           | None \<Rightarrow> matchLoop lc locationMap ss matchedStations (unmatchedStations @ [s])))"

definition matchStations ::
  "(string \<Rightarrow> string) \<Rightarrow> station list \<Rightarrow> location list \<Rightarrow> match list \<times> station list" where
  "matchStations lc dbStations openaqLocations =
     matchLoop lc (buildLocationMap lc emptyObject openaqLocations) dbStations [] []"

text \<open>
  Candidates in the words of the specification: an upstream location is a candidate for a
  key when its id key or its name key is that key; \<open>firstCandidate\<close> and
  \<open>lastCandidate\<close> are the first and the last candidate of the upstream list, and
  \<open>classify\<close> matches a local site by id first, then by name, else not at all.
  \<open>plainKeys\<close> says of the two lists that no upstream key is \<open>__proto__\<close> and that no
  key of a local site is the name of a member of \<^verbatim>\<open>Object.prototype\<close>.
\<close>

definition hasKey :: "(string \<Rightarrow> string) \<Rightarrow> string \<Rightarrow> location \<Rightarrow> bool" where
  "hasKey lc k loc = (idKey (l_id loc) = Some k \<or> nameKey lc (l_name loc) = Some k)"

definition firstCandidate :: "(string \<Rightarrow> string) \<Rightarrow> string \<Rightarrow> location list \<Rightarrow> location option" where
  "firstCandidate lc k locs = find (hasKey lc k) locs"

definition lastCandidate :: "(string \<Rightarrow> string) \<Rightarrow> string \<Rightarrow> location list \<Rightarrow> location option" where
  "lastCandidate lc k locs = find (hasKey lc k) (rev locs)"

definition classify ::
  "(string \<Rightarrow> location list \<Rightarrow> location option) \<Rightarrow> (string \<Rightarrow> string) \<Rightarrow> location list
     \<Rightarrow> station \<Rightarrow> match option" where
  "classify candidate lc locs s =
     (case Option.bind (idKey (st_id s)) (\<lambda>k. candidate k locs) of
        Some loc \<Rightarrow> Some \<lparr> dbStation = s, openaqLocation = Own loc, matchType = ById \<rparr>
      | None \<Rightarrow>
          (case Option.bind (nameKey lc (st_name s)) (\<lambda>k. candidate k locs) of
             Some loc \<Rightarrow> Some \<lparr> dbStation = s, openaqLocation = Own loc, matchType = ByName \<rparr>
           | None \<Rightarrow> None))"

definition keysOfStation :: "(string \<Rightarrow> string) \<Rightarrow> station \<Rightarrow> string list" where
  "keysOfStation lc s =
     (case idKey (st_id s) of None \<Rightarrow> [] | Some k \<Rightarrow> [k])
       @ (case nameKey lc (st_name s) of None \<Rightarrow> [] | Some k \<Rightarrow> [k])"

definition keysOfLocation :: "(string \<Rightarrow> string) \<Rightarrow> location \<Rightarrow> string list" where
  "keysOfLocation lc loc =
     (case idKey (l_id loc) of None \<Rightarrow> [] | Some k \<Rightarrow> [k])
       @ (case nameKey lc (l_name loc) of None \<Rightarrow> [] | Some k \<Rightarrow> [k])"

definition plainKeys :: "(string \<Rightarrow> string) \<Rightarrow> station list \<Rightarrow> location list \<Rightarrow> bool" where
  "plainKeys lc dbStations openaqLocations =
     (''__proto__'' \<notin> set (concat (map (keysOfLocation lc) openaqLocations))
      \<and> set (concat (map (keysOfStation lc) dbStations)) \<inter> set objectPrototypeKeys = {})"

section \<open>Per-site processing and the idempotent writer (la-hourly-sync.js, processStation)\<close>

text \<open>
  The environment of a run: the network, the draw \<^verbatim>\<open>Math.random()\<close> returns when it
  is called for a sensor (given by the sensor's \<^verbatim>\<open>_id\<close>), the time value
  \<^verbatim>\<open>new Date()\<close> reads, the rules of the local time zone, and the faults of the store:
  for each call on the store, whether it throws, and with what message.
\<close>

datatype dbop =
    FindStations
  | FindSensors nat
  | FindOneMeasurement nat string int
  | InsertMeasurement nat string int
  | UpdateSensor nat
  | UpdateStation nat
  | UpsertProgress nat

text \<open>
  The parsed body of the answer to \<^verbatim>\<open>/locations/{id}/latest\<close>. \<^verbatim>\<open>data.results\<close> is
  absent or falsy (also when the body is \<^verbatim>\<open>null\<close>, where reading it throws inside
  \<^verbatim>\<open>getLatestMeasurements\<close>), or an array whose elements are objects or
  \<^verbatim>\<open>null\<close>, or a truthy value that is not an array and has no length.
\<close>

datatype latest = Items "reading option list" | NotIterable

datatype body = NoResults | Results latest

record env =
  e_net :: "string \<Rightarrow> nat \<Rightarrow> body fetched"
  e_random :: "nat \<Rightarrow> draw"
  e_now :: int
  e_zone :: zone
  e_dbFault :: "dbop \<Rightarrow> string option"

text \<open>
  \<^verbatim>\<open>getLatestMeasurements\<close>: any error of the fetch is caught and gives the empty list,
  and so does a body without \<^verbatim>\<open>results\<close>.
\<close>

definition latestUrl :: "jsid option \<Rightarrow> string" where
  "latestUrl locationId = ''https://api.openaq.org/v3/locations/'' @ propertyKey locationId @ ''/latest''"

definition getLatestMeasurements :: "env \<Rightarrow> jsid option \<Rightarrow> latest" where
  "getLatestMeasurements e locationId =
     (case outcome (fetchWithRetry (e_net e) (latestUrl locationId) 3) of
        Inl err \<Rightarrow> Items []
      | Inr data \<Rightarrow> (case data of NoResults \<Rightarrow> Items [] | Results rs \<Rightarrow> rs))"

text \<open>\<^verbatim>\<open>generateSimulatedValue(paramName)\<close>, with the draw of \<^verbatim>\<open>Math.random()\<close> as \<open>rnd\<close>.\<close>

definition generateSimulatedValue :: "string option \<Rightarrow> real \<Rightarrow> real" where
  "generateSimulatedValue paramName rnd =
     (if paramName = Some ''pm25'' then rnd * 40 + 5
      else if paramName = Some ''pm10'' then rnd * 50 + 10
      else if paramName = Some ''o3'' then rnd * 60 + 10
      else if paramName = Some ''no2'' then rnd * 50 + 5
      else if paramName = Some ''so2'' then rnd * 20 + 1
      else if paramName = Some ''co'' then rnd * 5 + 0.2
      else rnd * 30 + 5)"

text \<open>
  \<^verbatim>\<open>for (const measurement of latestData) sensorDataMap[measurement.sensorsId] = measurement\<close>.
  Iterating a value that is not iterable throws, and so does reading \<^verbatim>\<open>sensorsId\<close> of
  \<^verbatim>\<open>null\<close>. The keys are the digits of a number or \<open>undefined\<close>, none of which is the
  name of a member of \<^verbatim>\<open>Object.prototype\<close>; a sensor is looked up by such a key too, so
  the dictionary is a map.
\<close>

fun sensorDataLoop ::
  "(string \<rightharpoonup> reading) \<Rightarrow> reading option list \<Rightarrow> jserror + (string \<rightharpoonup> reading)" where
  "sensorDataLoop sensorDataMap [] = Inr sensorDataMap"
| "sensorDataLoop sensorDataMap (None # rest) =
     Inl (Failure ''Cannot read properties of null (reading 'sensorsId')'')"
| "sensorDataLoop sensorDataMap (Some measurement # rest) =
     sensorDataLoop (sensorDataMap(numberKey (sensorsId measurement) \<mapsto> measurement)) rest"

definition buildSensorDataMap :: "latest \<Rightarrow> jserror + (string \<rightharpoonup> reading)" where
  "buildSensorDataMap latestData =
     (case latestData of
        NotIterable \<Rightarrow> Inl (Failure ''latestData is not iterable'')
      | Items ms \<Rightarrow> sensorDataLoop Map.empty ms)"

text \<open>
  \<^verbatim>\<open>sensor.openaqSensorId || sensor.id\<close>, then the real reading
  (\<^verbatim>\<open>measurement && measurement.value !== undefined\<close>), else a simulated value.
\<close>

definition sensorIdOf :: "sensor \<Rightarrow> jsnum option" where
  "sensorIdOf sensor =
     (if truthyNum (s_openaqSensorId sensor) then s_openaqSensorId sensor else s_id sensor)"

definition realReading :: "(string \<rightharpoonup> reading) \<Rightarrow> sensor \<Rightarrow> jsvalue option" where
  "realReading sensorDataMap sensor =
     (case sensorDataMap (numberKey (sensorIdOf sensor)) of
        None \<Rightarrow> None
      | Some measurement \<Rightarrow>
          if r_value measurement \<noteq> JUndefined then Some (r_value measurement) else None)"

definition resolveValue :: "env \<Rightarrow> (string \<rightharpoonup> reading) \<Rightarrow> sensor \<Rightarrow> jsvalue \<times> bool" where
  "resolveValue e sensorDataMap sensor =
     (case realReading sensorDataMap sensor of
        Some v \<Rightarrow> (v, False)
      | None \<Rightarrow>
          (JNumber (generateSimulatedValue (map_option p_name (s_parameter sensor))
                      (Rep_draw (e_random e (s_oid sensor)))), True))"

text \<open>
  The store operations: \<^verbatim>\<open>findOne\<close> returns the first document the query matches,
  \<^verbatim>\<open>updateOne\<close> changes the first document it matches, \<^verbatim>\<open>insertOne\<close> appends.
  \<open>sameKey\<close> is the query on station, \<^verbatim>\<open>parameter.name\<close> and timestamp.
\<close>

definition sameKey :: "nat \<Rightarrow> string \<Rightarrow> int \<Rightarrow> hourly \<Rightarrow> bool" where
  "sameKey stationOid paramName ts h =
     (h_station h = stationOid \<and> p_name (h_parameter h) = paramName \<and> h_timestamp h = ts)"

definition findOne :: "('a \<Rightarrow> bool) \<Rightarrow> 'a list \<Rightarrow> 'a option" where
  "findOne query docs = find query docs"

fun updateOne :: "('a \<Rightarrow> bool) \<Rightarrow> ('a \<Rightarrow> 'a) \<Rightarrow> 'a list \<Rightarrow> 'a list" where
  "updateOne query upd [] = []"
| "updateOne query upd (d # docs) = (if query d then upd d # docs else d # updateOne query upd docs)"

definition insertOne :: "'a \<Rightarrow> 'a list \<Rightarrow> 'a list" where
  "insertOne doc docs = docs @ [doc]"

text \<open>
  The body of \<^verbatim>\<open>if (value !== null)\<close>: the existence check, the insert when nothing
  exists, and the update of the sensor's latest value. The result tells whether a
  measurement was created.
\<close>

definition writeSensor ::
  "int \<Rightarrow> station \<Rightarrow> int \<Rightarrow> sensor \<Rightarrow> jsvalue \<Rightarrow> bool \<Rightarrow> db \<Rightarrow> jserror + (bool \<times> db)" where
  "writeSensor nowT stn currentTime sensor val isSimulated d =
     (case s_parameter sensor of
        None \<Rightarrow> Inl (Failure ''Cannot read properties of undefined (reading 'name')'')
      | Some par \<Rightarrow>
          (let existingRecord =
                 findOne (sameKey (st_oid stn) (p_name par) currentTime) (measurementCollection d);
               d1 = (if existingRecord = None
                     then d\<lparr> measurementCollection :=
                             insertOne \<lparr> h_station = st_oid stn,
                                         h_parameter = \<lparr> p_id = p_id par, p_name = p_name par,
                                                          p_units = p_units par,
                                                          p_displayName = p_displayName par \<rparr>,
                                         h_value = val, h_isSimulated = isSimulated,
                                         h_timestamp = currentTime, h_createdAt = nowT \<rparr>
                                       (measurementCollection d) \<rparr>
                     else d);
               d2 = d1\<lparr> sensorCollection :=
                          updateOne (\<lambda>s. s_oid s = s_oid sensor)
                            (\<lambda>s. s\<lparr> s_value := val, s_lastUpdated := Some nowT,
                                     s_isSimulated := Some isSimulated \<rparr>)
                            (sensorCollection d1) \<rparr>
           in Inr (existingRecord = None, d2)))"

text \<open>
  The same lines with the faults of the store: the \<^verbatim>\<open>TypeError\<close> of a sensor without
  parameter descriptor is thrown before any call; then \<^verbatim>\<open>findOne\<close>, \<^verbatim>\<open>insertOne\<close>
  (when nothing exists) and \<^verbatim>\<open>updateOne\<close> are called in this order, and a call that
  throws leaves the store as the calls before it made it. When no call throws the result
  is that of \<open>writeSensor\<close>.
\<close>

definition writeSensorStep ::
  "env \<Rightarrow> station \<Rightarrow> int \<Rightarrow> sensor \<Rightarrow> jsvalue \<Rightarrow> bool \<Rightarrow> db \<Rightarrow> (jserror + bool) \<times> db" where
  "writeSensorStep e stn currentTime sensor val isSimulated d =
     (case s_parameter sensor of
        None \<Rightarrow> (Inl (Failure ''Cannot read properties of undefined (reading 'name')''), d)
      | Some par \<Rightarrow>
          (case e_dbFault e (FindOneMeasurement (st_oid stn) (p_name par) currentTime) of
             Some msg \<Rightarrow> (Inl (Failure msg), d)
           | None \<Rightarrow>
               (case writeSensor (e_now e) stn currentTime sensor val isSimulated d of
                  Inl err \<Rightarrow> (Inl err, d)
                | Inr (created, d2) \<Rightarrow>
                    (case (if created
                           then e_dbFault e (InsertMeasurement (st_oid stn) (p_name par) currentTime)
                           else None) of
                       Some msg \<Rightarrow> (Inl (Failure msg), d)
                     | None \<Rightarrow>
                         (case e_dbFault e (UpdateSensor (s_oid sensor)) of
                            Some msg \<Rightarrow>
                              (Inl (Failure msg), d2\<lparr> sensorCollection := sensorCollection d \<rparr>)
                          | None \<Rightarrow> (Inr created, d2))))))"

record tally =
  stationDataUpdated :: bool
  sensorsProcessed :: nat
  recordsCreated :: nat

definition processSensor ::
  "env \<Rightarrow> station \<Rightarrow> int \<Rightarrow> (string \<rightharpoonup> reading) \<Rightarrow> sensor \<Rightarrow> tally \<Rightarrow> db \<Rightarrow> (jserror + tally) \<times> db" where
  "processSensor e stn currentTime sensorDataMap sensor t d =
     (let (val, isSimulated) = resolveValue e sensorDataMap sensor
      in if val \<noteq> JNull then
           (case writeSensorStep e stn currentTime sensor val isSimulated d of
              (Inl err, d') \<Rightarrow> (Inl err, d')
            | (Inr created, d') \<Rightarrow>
                (Inr (if created
                      then \<lparr> stationDataUpdated = True,
                             sensorsProcessed = sensorsProcessed t + 1,
                             recordsCreated = recordsCreated t + 1 \<rparr>
                      else t\<lparr> sensorsProcessed := sensorsProcessed t + 1 \<rparr>), d'))
         else (Inr t, d))"

fun sensorLoop ::
  "env \<Rightarrow> station \<Rightarrow> int \<Rightarrow> (string \<rightharpoonup> reading) \<Rightarrow> sensor list \<Rightarrow> tally \<Rightarrow> db \<Rightarrow> (jserror + tally) \<times> db" where
  "sensorLoop e stn currentTime sensorDataMap [] t d = (Inr t, d)"
| "sensorLoop e stn currentTime sensorDataMap (sensor # rest) t d =
     (case processSensor e stn currentTime sensorDataMap sensor t d of
        (Inl err, d') \<Rightarrow> (Inl err, d')
      | (Inr t', d') \<Rightarrow> sensorLoop e stn currentTime sensorDataMap rest t' d')"

text \<open>
  The object \<^verbatim>\<open>processStation\<close> returns; \<open>r_error\<close> is the error whose
  \<^verbatim>\<open>message\<close> the object retains.
\<close>

datatype reason = R_success | R_no_new_data | R_no_data | R_no_sensors | R_missing_id | R_error

record result =
  success :: bool
  reason :: reason
  r_error :: "jserror option"
  r_sensorsProcessed :: "nat option"
  r_recordsCreated :: "nat option"

definition failed_with :: "reason \<Rightarrow> result" where
  "failed_with why = \<lparr> success = False, reason = why, r_error = None,
                       r_sensorsProcessed = None, r_recordsCreated = None \<rparr>"

text \<open>\<^verbatim>\<open>!station.id && station.id !== 0\<close>\<close>

definition missingId :: "station \<Rightarrow> bool" where
  "missingId stn = (\<not> truthy (st_id stn) \<and> st_id stn \<noteq> Some (IdNum 0))"

text \<open>
  The body of the \<^verbatim>\<open>try\<close> block of \<^verbatim>\<open>processStation\<close>: \<open>Inl\<close> is the exception
  the \<^verbatim>\<open>catch\<close> receives, with the store as the calls before the exception made it.
\<close>

definition processStationTry :: "env \<Rightarrow> station \<Rightarrow> int \<Rightarrow> db \<Rightarrow> (jserror + result) \<times> db" where
  "processStationTry e stn currentTime d =
     (if missingId stn then (Inr (failed_with R_missing_id), d)
      else
        (let latestData = getLatestMeasurements e (st_id stn)
         in if latestData = Items [] then (Inr (failed_with R_no_data), d)
            else
              (case e_dbFault e (FindSensors (st_oid stn)) of
                 Some msg \<Rightarrow> (Inl (Failure msg), d)
               | None \<Rightarrow>
                   (let sensors = filter (\<lambda>s. s_station s = st_oid stn) (sensorCollection d)
                    in if sensors = [] then (Inr (failed_with R_no_sensors), d)
                       else
                         (case buildSensorDataMap latestData of
                            Inl err \<Rightarrow> (Inl err, d)
                          | Inr sensorDataMap \<Rightarrow>
                              (case sensorLoop e stn currentTime sensorDataMap sensors
                                      \<lparr> stationDataUpdated = False, sensorsProcessed = 0,
                                        recordsCreated = 0 \<rparr> d of
                                 (Inl err, d') \<Rightarrow> (Inl err, d')
                               | (Inr t, d') \<Rightarrow>
                                   (if stationDataUpdated t
                                    then
                                      (case e_dbFault e (UpdateStation (st_oid stn)) of
                                         Some msg \<Rightarrow> (Inl (Failure msg), d')
                                       | None \<Rightarrow>
                                           (Inr \<lparr> success = True, reason = R_success,
                                                  r_error = None,
                                                  r_sensorsProcessed = Some (sensorsProcessed t),
                                                  r_recordsCreated = Some (recordsCreated t) \<rparr>,
                                            d'\<lparr> stationCollection :=
                                                  updateOne (\<lambda>s. st_oid s = st_oid stn)
                                                    (\<lambda>s. s\<lparr> st_lastDataUpdate := Some (e_now e) \<rparr>)
                                                    (stationCollection d') \<rparr>))
                                    else
                                      (Inr \<lparr> success = False, reason = R_no_new_data,
                                             r_error = None,
                                             r_sensorsProcessed = Some (sensorsProcessed t),
                                             r_recordsCreated = Some (recordsCreated t) \<rparr>,
                                       d'))))))))"

text \<open>
  \<^verbatim>\<open>processStation\<close>: the \<^verbatim>\<open>catch\<close> turns an exception of the body into the
  outcome \<^verbatim>\<open>{ success: false, reason: 'error', error: err.message }\<close>.
\<close>

definition processStation :: "env \<Rightarrow> station \<Rightarrow> int \<Rightarrow> db \<Rightarrow> result \<times> db" where
  "processStation e stn currentTime d =
     (case processStationTry e stn currentTime d of
        (Inl err, d') \<Rightarrow>
          (\<lparr> success = False, reason = R_error, r_error = Some err,
             r_sensorsProcessed = None, r_recordsCreated = None \<rparr>, d')
      | (Inr r, d') \<Rightarrow> (r, d'))"

section \<open>Batch runner and checkpoint (la-hourly-sync.js, handler)\<close>

text \<open>
  The handler once the connection to the store is open: the query for the stations within
  \<^verbatim>\<open>LA_BOUNDS\<close>, the paging, the batches of three stations processed one by one, the
  tally of the results and, at the end of each batch, the upsert of the checkpoint document
  \<^verbatim>\<open>LA_HOURLY_SYNC\<close>. An exception of the query or of an upsert reaches the handler's
  own \<^verbatim>\<open>catch\<close>, which answers with status 500. The delays between stations and
  batches are not modelled.
\<close>

definition minLat :: real where "minLat = 33.6"
definition maxLat :: real where "maxLat = 34.8"
definition minLng :: real where "minLng = - 118.9"
definition maxLng :: real where "maxLng = - 117.5"

definition inLaBounds :: "station \<Rightarrow> bool" where
  "inLaBounds stn =
     (case st_coordinates stn of
        None \<Rightarrow> False
      | Some (latitude, longitude) \<Rightarrow>
          minLat \<le> latitude \<and> latitude \<le> maxLat \<and> minLng \<le> longitude \<and> longitude \<le> maxLng)"

record results =
  res_total :: nat
  successful :: nat
  failed :: nat
  failureReasons :: "reason \<Rightarrow> nat"
  res_sensorsProcessed :: nat
  res_recordsCreated :: nat
  res_paging :: paging

definition batchSize :: nat where
  "batchSize = 3"

fun processBatch :: "env \<Rightarrow> int \<Rightarrow> station list \<Rightarrow> db \<Rightarrow> result list \<times> db" where
  "processBatch e currentTime [] d = ([], d)"
| "processBatch e currentTime (stn # rest) d =
     (case processStation e stn currentTime d of
        (r, d1) \<Rightarrow> (case processBatch e currentTime rest d1 of (rs, d2) \<Rightarrow> (r # rs, d2)))"

definition tallyResult :: "results \<Rightarrow> result \<Rightarrow> results" where
  "tallyResult res r =
     (if success r
      then res\<lparr> successful := successful res + 1,
                res_sensorsProcessed := res_sensorsProcessed res
                   + (case r_sensorsProcessed r of None \<Rightarrow> 0 | Some n \<Rightarrow> n),
                res_recordsCreated := res_recordsCreated res
                   + (case r_recordsCreated r of None \<Rightarrow> 0 | Some n \<Rightarrow> n) \<rparr>
      else res\<lparr> failed := failed res + 1,
                failureReasons := (failureReasons res)(reason r := failureReasons res (reason r) + 1) \<rparr>)"

definition checkpointOf :: "env \<Rightarrow> int \<Rightarrow> int \<Rightarrow> nat \<Rightarrow> nat \<Rightarrow> checkpoint" where
  "checkpointOf e offset maxPerRun totalSt batchNumber =
     \<lparr> cp_lastRunTime = e_now e,
       cp_lastOffset = offset,
       cp_nextOffset = nextOffset offset maxPerRun (int totalSt),
       cp_totalStations = int totalSt,
       cp_batchesCompleted = batchNumber,
       cp_totalBatches = (totalSt + batchSize - 1) div batchSize,
       cp_isFullyComplete = (endOffset offset maxPerRun (int totalSt) \<ge> int totalSt) \<rparr>"

function batchLoop ::
  "env \<Rightarrow> int \<Rightarrow> station list \<Rightarrow> int \<Rightarrow> int \<Rightarrow> nat \<Rightarrow> nat \<Rightarrow> results \<Rightarrow> db
     \<Rightarrow> (jserror + results) \<times> db" where
  "batchLoop e currentTime stations offset maxPerRun totalSt i res d =
     (if i < length stations then
        (case processBatch e currentTime (js_slice stations (int i) (int (i + batchSize))) d of
           (batchResults, d1) \<Rightarrow>
             (case e_dbFault e (UpsertProgress (i div batchSize + 1)) of
                Some msg \<Rightarrow> (Inl (Failure msg), d1)
              | None \<Rightarrow>
                  batchLoop e currentTime stations offset maxPerRun totalSt (i + batchSize)
                    (foldl tallyResult res batchResults)
                    (d1\<lparr> progressCollection :=
                           Some (checkpointOf e offset maxPerRun totalSt (i div batchSize + 1)) \<rparr>)))
      else (Inr res, d))"
  by pat_completeness auto
termination
  by (relation "measure (\<lambda>(e, currentTime, stations, offset, maxPerRun, totalSt, i, res, d).
                  length stations - i)")
     (auto simp: batchSize_def)

declare batchLoop.simps [simp del]

datatype response = NotFound404 | Ok200 results | Error500 jserror

definition handler :: "env \<Rightarrow> int \<Rightarrow> int \<Rightarrow> db \<Rightarrow> response \<times> db" where
  "handler e maxPerRun offset d =
     (case e_dbFault e FindStations of
        Some msg \<Rightarrow> (Error500 (Failure msg), d)
      | None \<Rightarrow>
          (let allLaStations = filter inLaBounds (stationCollection d)
           in if allLaStations = [] then (NotFound404, d)
              else
                (let slice = laStations allLaStations offset maxPerRun;
                     currentTime = alignHour (e_zone e) (e_now e)
                 in case batchLoop e currentTime slice offset maxPerRun (length allLaStations) 0
                           \<lparr> res_total = length slice, successful = 0, failed = 0,
                             failureReasons = (\<lambda>why. 0), res_sensorsProcessed = 0,
                             res_recordsCreated = 0,
                             res_paging = pagingOf allLaStations offset maxPerRun \<rparr>
                           d of
                      (Inl err, d') \<Rightarrow> (Error500 err, d')
                    | (Inr res, d') \<Rightarrow> (Ok200 res, d'))))"

section \<open>Observations on the store\<close>

text \<open>
  What the properties below observe: the number of measurements with a uniqueness key, the
  document of a sensor, the cached latest value an update writes, and the measurement
  document the writer inserts.
\<close>

definition countKey :: "nat \<Rightarrow> string \<Rightarrow> int \<Rightarrow> db \<Rightarrow> nat" where
  "countKey stationOid paramName ts d =
     length (filter (sameKey stationOid paramName ts) (measurementCollection d))"


definition cache :: "jsvalue \<Rightarrow> int \<Rightarrow> bool \<Rightarrow> sensor \<Rightarrow> sensor" where
  "cache val t isSimulated s = s\<lparr> s_value := val, s_lastUpdated := Some t, s_isSimulated := Some isSimulated \<rparr>"

definition measurementDoc :: "station \<Rightarrow> parameter \<Rightarrow> jsvalue \<Rightarrow> bool \<Rightarrow> int \<Rightarrow> int \<Rightarrow> hourly" where
  "measurementDoc stn par val isSimulated ts created =
     \<lparr> h_station = st_oid stn,
       h_parameter = \<lparr> p_id = p_id par, p_name = p_name par, p_units = p_units par,
                        p_displayName = p_displayName par \<rparr>,
       h_value = val, h_isSimulated = isSimulated, h_timestamp = ts, h_createdAt = created \<rparr>"

section \<open>The properties in the words of the specification\<close>

text \<open>The sites of a list whose index lies in the half-open range from \<open>lo\<close> to \<open>hi\<close>.\<close>

definition sitesInRange :: "'a list \<Rightarrow> int \<Rightarrow> int \<Rightarrow> 'a list" where
  "sitesInRange xs lo hi =
     map (\<lambda>i. xs ! i) (filter (\<lambda>i. lo \<le> int i \<and> int i < hi) [0 ..< length xs])"






text \<open>Every call on the store succeeds.\<close>

definition storeAnswers :: "env \<Rightarrow> bool" where
  "storeAnswers e = (e_dbFault e = (\<lambda>op. None))"


text \<open>
  All the sites of a list processed one after the other, each from the store the one
  before left: the outcomes in order, and the store at the end.
\<close>

definition runSites :: "env \<Rightarrow> int \<Rightarrow> station list \<Rightarrow> db \<Rightarrow> result list \<times> db" where
  "runSites e ct stations d =
     foldl (\<lambda>(rs, d0) stn. case processStation e stn ct d0 of (r, d1) \<Rightarrow> (rs @ [r], d1))
       ([], d) stations"

section \<open>Example data\<close>

text \<open>
  Two stations within the bounds. The sensor of the first has no parameter descriptor, the
  sensor of the second measures pm25. The upstream answers every call with one reading, for
  the sensor of the second station; every draw is one half; the host runs in UTC and the
  store answers every call.
\<close>

definition exParameter :: parameter where
  "exParameter = \<lparr> p_id = 2, p_name = ''pm25'', p_units = ''ug/m3'', p_displayName = ''PM2.5'' \<rparr>"

definition exStationA :: station where
  "exStationA = \<lparr> st_oid = 1, st_id = Some (IdNum 101), st_name = Some ''Alpha'',
                   st_coordinates = Some (34, - 118), st_lastDataUpdate = None \<rparr>"

definition exStationB :: station where
  "exStationB = \<lparr> st_oid = 2, st_id = Some (IdNum 102), st_name = Some ''Beta'',
                   st_coordinates = Some (34, - 118), st_lastDataUpdate = None \<rparr>"

definition exSensorA :: sensor where
  "exSensorA = \<lparr> s_oid = 11, s_station = 1, s_id = Some 7, s_openaqSensorId = None,
                  s_parameter = None, s_value = JNumber (- 1), s_lastUpdated = None,
                  s_isSimulated = None \<rparr>"

definition exSensorB :: sensor where
  "exSensorB = \<lparr> s_oid = 12, s_station = 2, s_id = Some 8, s_openaqSensorId = None,
                  s_parameter = Some exParameter, s_value = JNumber (- 1), s_lastUpdated = None,
                  s_isSimulated = None \<rparr>"

definition exDb :: db where
  "exDb = \<lparr> stationCollection = [exStationA, exStationB],
             sensorCollection = [exSensorA, exSensorB],
             measurementCollection = [], progressCollection = None \<rparr>"

definition exPayload :: "jsvalue \<Rightarrow> latest" where
  "exPayload v = Items [Some \<lparr> sensorsId = Some 8, r_value = v \<rparr>]"

definition exEnv :: "jsvalue \<Rightarrow> env" where
  "exEnv v = \<lparr> e_net = (\<lambda>url n. Response 200 ''OK'' (Inr (Results (exPayload v)))),
                e_random = (\<lambda>oid. Abs_draw (1 / 2)), e_now = 1700000123456,
                e_zone = fixedZone 0, e_dbFault = (\<lambda>op. None) \<rparr>"

section \<open>Properties of the partition planner\<close>

lemma laStations_nonneg:
  assumes "0 \<le> offset" and "0 \<le> maxPerRun"
  shows "laStations xs offset maxPerRun = take (nat maxPerRun) (drop (nat offset) xs)"
proof -
  let ?n = "length xs"
  let ?e = "endOffset offset maxPerRun (int ?n)"
  have e: "0 \<le> ?e" using assms by (simp add: endOffset_def)
  have k: "relIndex ?n offset = min (nat offset) ?n"
    using assms by (simp add: relIndex_def)
  have f: "relIndex ?n ?e = min (nat ?e) ?n"
    using e by (simp add: relIndex_def)
  have "take (min (nat ?e) ?n - min (nat offset) ?n) (drop (min (nat offset) ?n) xs)
        = take (nat maxPerRun) (drop (nat offset) xs)"
  proof (cases "nat offset \<le> ?n")
    case True
    then have d: "min (nat ?e) ?n - min (nat offset) ?n = min (nat maxPerRun) (?n - nat offset)"
      using assms by (auto simp: endOffset_def min_def)
    have "take (min (nat maxPerRun) (?n - nat offset)) (drop (nat offset) xs)
          = take (nat maxPerRun) (drop (nat offset) xs)"
      by (simp add: min_def)
    with True d show ?thesis by (simp add: min_def)
  next
    case False
    then show ?thesis by (simp add: min_def)
  qed
  then show ?thesis
    unfolding laStations_def js_slice_def Let_def k f .
qed

lemma take_drop_nth:
  "take m (drop k xs) = map (\<lambda>i. xs ! i) [k ..< min (k + m) (length xs)]"
proof (rule nth_equalityI)
  show "length (take m (drop k xs)) = length (map (\<lambda>i. xs ! i) [k ..< min (k + m) (length xs)])"
    by auto
next
  fix i assume "i < length (take m (drop k xs))"
  then have i: "i < m" "k + i < length xs" by auto
  then have "[k ..< min (k + m) (length xs)] ! i = k + i" by simp
  with i show "take m (drop k xs) ! i = map (\<lambda>i. xs ! i) [k ..< min (k + m) (length xs)] ! i"
    by simp
qed

lemma runCycle_from:
  assumes "1 \<le> maxPerRun"
  shows "0 \<le> offset \<Longrightarrow> offset < int (length xs) \<Longrightarrow> length xs - nat offset \<le> fuel \<Longrightarrow>
         \<exists>slices. runCycle fuel xs maxPerRun offset = Some slices
            \<and> concat slices = drop (nat offset) xs \<and> [] \<notin> set slices"
proof (induction fuel arbitrary: offset)
  case 0
  then show ?case by simp
next
  case (Suc fuel)
  let ?T = "int (length xs)"
  let ?e = "endOffset offset maxPerRun ?T"
  have sl: "laStations xs offset maxPerRun = take (nat maxPerRun) (drop (nat offset) xs)"
    using Suc.prems assms by (simp add: laStations_nonneg)
  have ne: "laStations xs offset maxPerRun \<noteq> []"
    using Suc.prems assms unfolding sl by auto
  show ?case
  proof (cases "?e \<ge> ?T")
    case True
    then have nx: "nextOffset offset maxPerRun ?T = 0" by (simp add: nextOffset_def)
    from True have "length xs - nat offset \<le> nat maxPerRun"
      using Suc.prems by (simp add: endOffset_def min_def split: if_splits)
    then have "take (nat maxPerRun) (drop (nat offset) xs) = drop (nat offset) xs" by simp
    with nx sl ne show ?thesis by simp
  next
    case False
    then have e: "?e = offset + maxPerRun" by (simp add: endOffset_def min_def split: if_splits)
    with False have nx: "nextOffset offset maxPerRun ?T = offset + maxPerRun"
      by (simp add: nextOffset_def)
    have pos: "offset + maxPerRun \<noteq> 0" using Suc.prems assms by simp
    have "\<exists>slices. runCycle fuel xs maxPerRun (offset + maxPerRun) = Some slices
            \<and> concat slices = drop (nat (offset + maxPerRun)) xs \<and> [] \<notin> set slices"
      using Suc.prems assms False e by (intro Suc.IH) auto
    then obtain slices where s: "runCycle fuel xs maxPerRun (offset + maxPerRun) = Some slices"
      "concat slices = drop (nat (offset + maxPerRun)) xs" "[] \<notin> set slices" by blast
    have "nat (offset + maxPerRun) = nat maxPerRun + nat offset"
      using Suc.prems assms by simp
    then have "take (nat maxPerRun) (drop (nat offset) xs) @ drop (nat (offset + maxPerRun)) xs
          = drop (nat offset) xs"
      by (metis append_take_drop_id drop_drop)
    with s nx pos sl ne show ?thesis by simp
  qed
qed


text \<open>
  Claim C2. For a site list of length \<open>T \<ge> 1\<close> and a window \<open>W \<ge> 1\<close>, the runs of one
  cycle, started at offset 0 and each continued from the recorded next offset until it wraps
  to 0, take slices whose concatenation is the whole site list: every site index in
  \<open>[0, T)\<close> is covered exactly once. The cycle ends within \<open>T\<close> runs.
\<close>

theorem partition_coverage:
  assumes "1 \<le> length xs" and "1 \<le> maxPerRun" and "length xs \<le> fuel"
  shows "\<exists>slices. runCycle fuel xs maxPerRun 0 = Some slices \<and> concat slices = xs"
proof -
  have "\<exists>slices. runCycle fuel xs maxPerRun 0 = Some slices
          \<and> concat slices = drop (nat 0) xs \<and> [] \<notin> set slices"
    using assms by (intro runCycle_from) auto
  then show ?thesis by auto
qed

theorem partition_coverage_witness:
  "1 \<le> length [10, 20, 30 :: nat] \<and> (1::int) \<le> 2 \<and> length [10, 20, 30 :: nat] \<le> 3
   \<and> (\<exists>slices. runCycle 3 [10, 20, 30 :: nat] 2 0 = Some slices
         \<and> concat slices = [10, 20, 30])"
  using partition_coverage [of "[10, 20, 30 :: nat]" 2 3] by simp

section \<open>Properties of the resilient fetch client\<close>

lemma fetchLoop_attempts:
  "attempt \<le> maxRetries \<Longrightarrow> attempts (fetchLoop net maxRetries attempt e w) \<le> maxRetries"
proof (induction net maxRetries attempt e w rule: fetchLoop.induct)
  case (1 net maxRetries attempt lastError waited)
  show ?case
  proof (cases "attempt < maxRetries")
    case True
    show ?thesis
    proof (cases "attemptOnce (net attempt)")
      case (Inl err)
      with True 1 show ?thesis by (subst fetchLoop.simps) (simp add: Let_def)
    next
      case (Inr j)
      with True show ?thesis by (subst fetchLoop.simps) (simp add: Let_def)
    qed
  next
    case False
    with 1 show ?thesis by (subst fetchLoop.simps) simp
  qed
qed

lemma fetchLoop_attempts_ge:
  "attempt \<le> attempts (fetchLoop net maxRetries attempt e w)"
proof (induction net maxRetries attempt e w rule: fetchLoop.induct)
  case (1 net maxRetries attempt lastError waited)
  show ?case
  proof (cases "attempt < maxRetries")
    case True
    show ?thesis
    proof (cases "attemptOnce (net attempt)")
      case (Inl err)
      with True 1 [OF True refl Inl] show ?thesis
        by (subst fetchLoop.simps) (simp add: Let_def)
    next
      case (Inr j)
      with True show ?thesis by (subst fetchLoop.simps) (simp add: Let_def)
    qed
  next
    case False
    then show ?thesis by (subst fetchLoop.simps) simp
  qed
qed

lemma fetchLoop_delays:
  "delays (fetchLoop net maxRetries attempt e w)
     = w @ map delayMs [max attempt 1 ..< attempts (fetchLoop net maxRetries attempt e w)]"
proof (induction net maxRetries attempt e w rule: fetchLoop.induct)
  case (1 net maxRetries attempt lastError waited)
  show ?case
  proof (cases "attempt < maxRetries")
    case True
    show ?thesis
    proof (cases "attemptOnce (net attempt)")
      case (Inl err)
      have le: "Suc attempt \<le> attempts (fetchLoop net maxRetries (Suc attempt) (Some err)
                 (if attempt > 0 then waited @ [delayMs attempt] else waited))" (is "_ \<le> attempts ?r")
        by (rule fetchLoop_attempts_ge)
      from True Inl have eq: "fetchLoop net maxRetries attempt lastError waited = ?r"
        by (subst fetchLoop.simps) (simp add: Let_def)
      have ih: "delays ?r = (if attempt > 0 then waited @ [delayMs attempt] else waited)
                  @ map delayMs [max (Suc attempt) 1 ..< attempts ?r]"
        using 1 [OF True refl Inl] .
      show ?thesis
      proof (cases "attempt > 0")
        case True
        then have "[attempt ..< attempts ?r] = attempt # [Suc attempt ..< attempts ?r]"
          using le by (simp add: upt_conv_Cons)
        moreover have "max attempt 1 = attempt" "max (Suc attempt) 1 = Suc attempt"
          using True by simp_all
        ultimately show ?thesis using True ih unfolding eq by simp
      next
        case False
        then have "max attempt 1 = 1" "max (Suc attempt) 1 = 1" by simp_all
        with False ih show ?thesis unfolding eq by simp
      qed
    next
      case (Inr j)
      with True show ?thesis by (subst (1 2) fetchLoop.simps) (simp add: Let_def max_def)
    qed
  next
    case False
    then show ?thesis by (subst (1 2) fetchLoop.simps) simp
  qed
qed


lemma fetchLoop_success:
  "attempt \<le> k \<Longrightarrow> k < maxRetries \<Longrightarrow> attemptOnce (net k) = Inr j \<Longrightarrow>
   (\<And>i. attempt \<le> i \<Longrightarrow> i < k \<Longrightarrow> isl (attemptOnce (net i))) \<Longrightarrow>
   outcome (fetchLoop net maxRetries attempt e w) = Inr j
   \<and> attempts (fetchLoop net maxRetries attempt e w) = Suc k"
proof (induction net maxRetries attempt e w rule: fetchLoop.induct)
  case (1 net maxRetries attempt lastError waited)
  from 1(2,3) have lt: "attempt < maxRetries" by simp
  show ?case
  proof (cases "attempt = k")
    case True
    with lt 1(4) show ?thesis by (subst (1 2) fetchLoop.simps) (simp add: Let_def)
  next
    case False
    with 1(2) have ak: "attempt < k" by simp
    with 1(5) [of attempt] obtain err where err: "attemptOnce (net attempt) = Inl err"
      by (cases "attemptOnce (net attempt)") auto
    have "outcome (fetchLoop net maxRetries (Suc attempt) (Some err)
             (if attempt > 0 then waited @ [delayMs attempt] else waited)) = Inr j
        \<and> attempts (fetchLoop net maxRetries (Suc attempt) (Some err)
             (if attempt > 0 then waited @ [delayMs attempt] else waited)) = Suc k"
      using ak 1(3,4,5) by (intro 1(1) [OF lt refl err]) auto
    with lt err show ?thesis by (subst (1 2) fetchLoop.simps) (simp add: Let_def)
  qed
qed

lemma fetchLoop_exhausted:
  "attempt \<le> maxRetries \<Longrightarrow>
   (\<And>i. attempt \<le> i \<Longrightarrow> i < maxRetries \<Longrightarrow> isl (attemptOnce (net i))) \<Longrightarrow>
   outcome (fetchLoop net maxRetries attempt e w)
     = Inl (if attempt < maxRetries then Some (projl (attemptOnce (net (maxRetries - 1)))) else e)
   \<and> attempts (fetchLoop net maxRetries attempt e w) = maxRetries"
proof (induction net maxRetries attempt e w rule: fetchLoop.induct)
  case (1 net maxRetries attempt lastError waited)
  show ?case
  proof (cases "attempt < maxRetries")
    case True
    with 1(3) [of attempt] obtain err where err: "attemptOnce (net attempt) = Inl err"
      by (cases "attemptOnce (net attempt)") auto
    let ?r = "fetchLoop net maxRetries (Suc attempt) (Some err)
             (if attempt > 0 then waited @ [delayMs attempt] else waited)"
    have ih: "outcome ?r = Inl (if Suc attempt < maxRetries
                 then Some (projl (attemptOnce (net (maxRetries - 1)))) else Some err)
        \<and> attempts ?r = maxRetries"
      using True 1(3) by (intro 1(1) [OF True refl err]) auto
    have "\<not> Suc attempt < maxRetries \<Longrightarrow> attempt = maxRetries - 1" using True by simp
    with ih err True show ?thesis
      by (subst (1 2) fetchLoop.simps) (auto simp: Let_def)
  next
    case False
    with 1(2) show ?thesis by (subst (1 2) fetchLoop.simps) simp
  qed
qed


text \<open>
  Claim C6. The resilient fetch makes at most \<open>maxRetries\<close> calls, 3 by default; the
  delays it waits are exactly those before the retries, \<open>delayMs 1, delayMs 2, \<dots>\<close>, and
  \<open>delayMs\<close> grows strictly with the attempt number; when call \<open>k\<close> is the first to
  resolve with a 2xx status and a body that parses, that body is returned whatever it
  holds and no further call is made; when every call fails, the error of the last call is
  thrown.
\<close>

theorem fetchWithRetry_contract:
  "attempts (fetchWithRetry net url maxRetries) \<le> maxRetries
   \<and> fetchWithRetryDefault net url = fetchWithRetry net url 3
   \<and> delays (fetchWithRetry net url maxRetries)
        = map delayMs [1 ..< attempts (fetchWithRetry net url maxRetries)]
   \<and> (a < b \<longrightarrow> delayMs a < delayMs b)
   \<and> (k < maxRetries \<and> net url k = Response status txt (Inr j) \<and> response_ok status
        \<and> (\<forall>i<k. isl (attemptOnce (net url i)))
      \<longrightarrow> outcome (fetchWithRetry net url maxRetries) = Inr j
          \<and> attempts (fetchWithRetry net url maxRetries) = Suc k)
   \<and> (0 < maxRetries \<and> (\<forall>i<maxRetries. isl (attemptOnce (net url i)))
      \<longrightarrow> (\<exists>err. attemptOnce (net url (maxRetries - 1)) = Inl err
                \<and> outcome (fetchWithRetry net url maxRetries) = Inl (Some err))
          \<and> attempts (fetchWithRetry net url maxRetries) = maxRetries)"
proof -
  let ?r = "fetchWithRetry net url maxRetries"
  have a: "attempts ?r \<le> maxRetries"
    unfolding fetchWithRetry_def by (rule fetchLoop_attempts) simp
  have b: "fetchWithRetryDefault net url = fetchWithRetry net url 3"
    by (simp add: fetchWithRetryDefault_def)
  have c: "delays ?r = map delayMs [1 ..< attempts ?r]"
    unfolding fetchWithRetry_def using fetchLoop_delays [of "net url" maxRetries 0 None "[]"]
    by simp
  have d: "a < b \<longrightarrow> delayMs a < delayMs b"
    by (simp add: delayMs_def)
  have e: "k < maxRetries \<and> net url k = Response status txt (Inr j) \<and> response_ok status
        \<and> (\<forall>i<k. isl (attemptOnce (net url i)))
      \<longrightarrow> outcome ?r = Inr j \<and> attempts ?r = Suc k"
  proof (intro impI, elim conjE)
    assume k: "k < maxRetries" and n: "net url k = Response status txt (Inr j)"
      and ok: "response_ok status" and f: "\<forall>i<k. isl (attemptOnce (net url i))"
    from n ok have "attemptOnce (net url k) = Inr j" by (simp add: attemptOnce_def)
    with k f show "outcome ?r = Inr j \<and> attempts ?r = Suc k"
      unfolding fetchWithRetry_def by (intro fetchLoop_success) auto
  qed
  have f: "0 < maxRetries \<and> (\<forall>i<maxRetries. isl (attemptOnce (net url i)))
      \<longrightarrow> (\<exists>err. attemptOnce (net url (maxRetries - 1)) = Inl err \<and> outcome ?r = Inl (Some err))
          \<and> attempts ?r = maxRetries"
  proof (intro impI, elim conjE)
    assume m: "0 < maxRetries" and f: "\<forall>i<maxRetries. isl (attemptOnce (net url i))"
    from m f have "isl (attemptOnce (net url (maxRetries - 1)))" by simp
    then obtain err where err: "attemptOnce (net url (maxRetries - 1)) = Inl err"
      by (cases "attemptOnce (net url (maxRetries - 1))") auto
    have "outcome (fetchLoop (net url) maxRetries 0 None [])
            = Inl (if 0 < maxRetries then Some (projl (attemptOnce (net url (maxRetries - 1)))) else None)
          \<and> attempts (fetchLoop (net url) maxRetries 0 None []) = maxRetries"
      using f by (intro fetchLoop_exhausted) auto
    with m err show "(\<exists>err. attemptOnce (net url (maxRetries - 1)) = Inl err
                \<and> outcome ?r = Inl (Some err)) \<and> attempts ?r = maxRetries"
      unfolding fetchWithRetry_def by simp
  qed
  from a b c d e f show ?thesis by blast
qed

theorem fetchWithRetry_contract_witness:
  "outcome (fetchWithRetry (\<lambda>u n. if n = 0 then Rejected ''timeout''
                                  else Response 200 ''OK'' (Inr ([] :: nat list)))
              ''u'' 3) = Inr []
   \<and> attempts (fetchWithRetry (\<lambda>u n. if n = 0 then Rejected ''timeout''
                                  else Response 200 ''OK'' (Inr ([] :: nat list)))
              ''u'' 3) = 2
   \<and> delays (fetchWithRetry (\<lambda>u n. if n = 0 then Rejected ''timeout''
                                  else Response 200 ''OK'' (Inr ([] :: nat list)))
              ''u'' 3) = [4000]
   \<and> (\<exists>err. outcome (fetchWithRetry (\<lambda>u n. Response 503 ''busy'' (Inr ([] :: nat list))) ''u'' 3)
          = Inl (Some err) \<and> err = HttpError 503 ''busy'')"
proof -
  let ?net = "\<lambda>(u::string) (n::nat). if n = 0 then Rejected ''timeout''
                                  else Response 200 ''OK'' (Inr ([] :: nat list))"
  let ?bad = "\<lambda>(u::string) (n::nat). Response 503 ''busy'' (Inr ([] :: nat list))"
  have h1: "(1::nat) < 3 \<and> ?net ''u'' 1 = Response 200 ''OK'' (Inr []) \<and> response_ok 200
        \<and> (\<forall>i<1. isl (attemptOnce (?net ''u'' i)))"
    by (simp add: response_ok_def attemptOnce_def)
  have h2: "(0::nat) < 3 \<and> (\<forall>i<3. isl (attemptOnce (?bad ''u'' i)))"
    by (simp add: response_ok_def attemptOnce_def)
  have e: "attemptOnce (?bad ''u'' (3 - 1)) = Inl (HttpError 503 ''busy'')"
    by (simp add: response_ok_def attemptOnce_def)
  note t1 = fetchWithRetry_contract [of ?net "''u''" 3 1 2 1 200 "''OK''" "[]"]
  note t2 = fetchWithRetry_contract [of ?bad "''u''" 3 1 2 1 200 "''OK''" "[]"]
  from t1 have c1: "delays (fetchWithRetry ?net ''u'' 3)
        = map delayMs [1 ..< attempts (fetchWithRetry ?net ''u'' 3)]"
    by blast
  from t1 h1 have c2: "outcome (fetchWithRetry ?net ''u'' 3) = Inr []
        \<and> attempts (fetchWithRetry ?net ''u'' 3) = Suc 1"
    by blast
  from t2 h2 have "\<exists>err. attemptOnce (?bad ''u'' (3 - 1)) = Inl err
        \<and> outcome (fetchWithRetry ?bad ''u'' 3) = Inl (Some err)"
    by blast
  with e have c3: "\<exists>err. outcome (fetchWithRetry ?bad ''u'' 3) = Inl (Some err)
        \<and> err = HttpError 503 ''busy''"
    by auto
  from c2 have c4: "attempts (fetchWithRetry ?net ''u'' 3) = 2" by simp
  from c1 c2 have c5: "delays (fetchWithRetry ?net ''u'' 3) = [4000]"
    by (simp add: delayMs_def)
  from c2 c4 c5 c3 show ?thesis by blast
qed

section \<open>Properties of the idempotent writer\<close>



lemma writeSensor_result:
  assumes "s_parameter sensor = Some par"
  shows "writeSensor nowT stn ct sensor val sim d
     = Inr (countKey (st_oid stn) (p_name par) ct d = 0,
            d\<lparr> measurementCollection :=
                   (if countKey (st_oid stn) (p_name par) ct d = 0
                    then measurementCollection d @ [measurementDoc stn par val sim ct nowT]
                    else measurementCollection d),
               sensorCollection :=
                   updateOne (\<lambda>s. s_oid s = s_oid sensor)
                     (\<lambda>s. s\<lparr> s_value := val, s_lastUpdated := Some nowT, s_isSimulated := Some sim \<rparr>)
                     (sensorCollection d) \<rparr>)"
proof -
  have "(find (sameKey (st_oid stn) (p_name par) ct) (measurementCollection d) = None)
        = (countKey (st_oid stn) (p_name par) ct d = 0)"
    by (auto simp: countKey_def find_None_iff filter_empty_conv)
  then show ?thesis
    using assms
    by (simp add: writeSensor_def findOne_def insertOne_def measurementDoc_def Let_def)
qed





section \<open>Properties of the planner contract\<close>

lemma filter_upt_range: "filter (\<lambda>i. a \<le> i \<and> i < b) [0 ..< n] = [a ..< min b n]"
proof (induction n)
  case 0
  then show ?case by simp
next
  case (Suc n)
  show ?case
  proof (cases "a \<le> n \<and> n < b")
    case True
    then have "min b (Suc n) = Suc n" "min b n = n" by simp_all
    with True Suc show ?thesis by simp
  next
    case False
    then have "[a ..< min b (Suc n)] = [a ..< min b n]" by (auto simp: min_def)
    with False Suc show ?thesis by simp
  qed
qed

lemma sitesInRange_nonneg:
  assumes "0 \<le> lo"
  shows "sitesInRange xs lo hi = map (\<lambda>i. xs ! i) [nat lo ..< min (nat hi) (length xs)]"
proof -
  have "(\<lambda>i. lo \<le> int i \<and> int i < hi) = (\<lambda>i. nat lo \<le> i \<and> i < nat hi)"
    using assms by (intro ext) auto
  then show ?thesis by (simp add: sitesInRange_def filter_upt_range)
qed

lemma laStations_sitesInRange:
  assumes "0 \<le> offset" and "0 \<le> maxPerRun"
  shows "laStations xs offset maxPerRun
           = sitesInRange xs offset (min (offset + maxPerRun) (int (length xs)))"
proof -
  have sl: "laStations xs offset maxPerRun = take (nat maxPerRun) (drop (nat offset) xs)"
    using assms by (rule laStations_nonneg)
  have m: "min (nat offset + nat maxPerRun) (length xs)
          = min (nat (min (offset + maxPerRun) (int (length xs)))) (length xs)"
    using assms by (auto simp: min_def nat_add_distrib nat_le_iff le_nat_iff)
  show ?thesis
    unfolding sl sitesInRange_nonneg [OF assms(1)] take_drop_nth m ..
qed

text \<open>
  Claim C4, as amended. For a non-negative offset and a non-negative window the planner's
  slice holds exactly the sites with index in \<open>[offset, min (offset + maxPerRun)
  totalSites)\<close>, in order, the remaining count is \<open>totalSites - min (offset + maxPerRun)
  totalSites\<close>, and the run is complete when that minimum reaches \<open>totalSites\<close>. With 130
  sites and window 50, offset 0 gives sites 0..49, 80 remaining, not complete, next offset
  50; offset 100 gives sites 100..129, 0 remaining, complete, next offset 0.
\<close>

theorem planner_contract:
  assumes "0 \<le> offset" and "0 \<le> maxPerRun"
  shows "laStations xs offset maxPerRun
           = sitesInRange xs offset (min (offset + maxPerRun) (int (length xs)))
       \<and> remainingStations (pagingOf xs offset maxPerRun)
           = int (length xs) - min (offset + maxPerRun) (int (length xs))
       \<and> isComplete (pagingOf xs offset maxPerRun)
           = (min (offset + maxPerRun) (int (length xs)) \<ge> int (length xs))
       \<and> (length xs = 130 \<longrightarrow>
              laStations xs 0 50 = take 50 xs
            \<and> laStations xs 0 50 = sitesInRange xs 0 50
            \<and> remainingStations (pagingOf xs 0 50) = 80
            \<and> \<not> isComplete (pagingOf xs 0 50)
            \<and> nextOffset 0 50 (int (length xs)) = 50)
       \<and> (length xs = 130 \<longrightarrow>
              laStations xs 100 50 = drop 100 xs
            \<and> laStations xs 100 50 = sitesInRange xs 100 130
            \<and> length (laStations xs 100 50) = 30
            \<and> remainingStations (pagingOf xs 100 50) = 0
            \<and> isComplete (pagingOf xs 100 50)
            \<and> nextOffset 100 50 (int (length xs)) = 0)"
proof -
  have a: "laStations xs offset maxPerRun
           = sitesInRange xs offset (min (offset + maxPerRun) (int (length xs)))"
    using assms by (rule laStations_sitesInRange)
  have b: "remainingStations (pagingOf xs offset maxPerRun)
           = int (length xs) - min (offset + maxPerRun) (int (length xs))"
    by (simp add: pagingOf_def endOffset_def Let_def)
  have c: "isComplete (pagingOf xs offset maxPerRun)
           = (min (offset + maxPerRun) (int (length xs)) \<ge> int (length xs))"
    by (simp add: pagingOf_def endOffset_def Let_def)
  have d: "length xs = 130 \<longrightarrow>
              laStations xs 0 50 = take 50 xs
            \<and> laStations xs 0 50 = sitesInRange xs 0 50
            \<and> remainingStations (pagingOf xs 0 50) = 80
            \<and> \<not> isComplete (pagingOf xs 0 50)
            \<and> nextOffset 0 50 (int (length xs)) = 50"
  proof
    assume l: "length xs = 130"
    have "laStations xs 0 50 = sitesInRange xs 0 (min (0 + 50) (int (length xs)))"
      by (rule laStations_sitesInRange) simp_all
    with l have r: "laStations xs 0 50 = sitesInRange xs 0 50" by simp
    have t: "laStations xs 0 50 = take 50 xs" by (simp add: laStations_nonneg)
    from l r t show "laStations xs 0 50 = take 50 xs
            \<and> laStations xs 0 50 = sitesInRange xs 0 50
            \<and> remainingStations (pagingOf xs 0 50) = 80
            \<and> \<not> isComplete (pagingOf xs 0 50)
            \<and> nextOffset 0 50 (int (length xs)) = 50"
      by (simp add: pagingOf_def endOffset_def nextOffset_def Let_def)
  qed
  have e: "length xs = 130 \<longrightarrow>
              laStations xs 100 50 = drop 100 xs
            \<and> laStations xs 100 50 = sitesInRange xs 100 130
            \<and> length (laStations xs 100 50) = 30
            \<and> remainingStations (pagingOf xs 100 50) = 0
            \<and> isComplete (pagingOf xs 100 50)
            \<and> nextOffset 100 50 (int (length xs)) = 0"
  proof
    assume l: "length xs = 130"
    have "laStations xs 100 50 = sitesInRange xs 100 (min (100 + 50) (int (length xs)))"
      by (rule laStations_sitesInRange) simp_all
    with l have r: "laStations xs 100 50 = sitesInRange xs 100 130" by simp
    have t: "laStations xs 100 50 = drop 100 xs" using l by (simp add: laStations_nonneg)
    from l t have n: "length (laStations xs 100 50) = 30" by simp
    from l r t n show "laStations xs 100 50 = drop 100 xs
            \<and> laStations xs 100 50 = sitesInRange xs 100 130
            \<and> length (laStations xs 100 50) = 30
            \<and> remainingStations (pagingOf xs 100 50) = 0
            \<and> isComplete (pagingOf xs 100 50)
            \<and> nextOffset 100 50 (int (length xs)) = 0"
      by (simp add: pagingOf_def endOffset_def nextOffset_def Let_def)
  qed
  from a b c d e show ?thesis by blast
qed

theorem planner_contract_witness:
  "(0::int) \<le> 100 \<and> (0::int) \<le> 50 \<and> length (replicate 130 (7::nat)) = 130
   \<and> laStations (replicate 130 (7::nat)) 100 50
        = sitesInRange (replicate 130 (7::nat)) 100
            (min (100 + 50) (int (length (replicate 130 (7::nat)))))
   \<and> laStations (replicate 130 (7::nat)) 0 50 = take 50 (replicate 130 7)
   \<and> remainingStations (pagingOf (replicate 130 (7::nat)) 0 50) = 80
   \<and> nextOffset 0 50 (int (length (replicate 130 (7::nat)))) = 50
   \<and> laStations (replicate 130 (7::nat)) 100 50 = drop 100 (replicate 130 7)
   \<and> length (laStations (replicate 130 (7::nat)) 100 50) = 30
   \<and> remainingStations (pagingOf (replicate 130 (7::nat)) 100 50) = 0
   \<and> isComplete (pagingOf (replicate 130 (7::nat)) 100 50)
   \<and> nextOffset 100 50 (int (length (replicate 130 (7::nat)))) = 0"
proof -
  have h: "(0::int) \<le> 100" "(0::int) \<le> 50" by simp_all
  have l: "length (replicate 130 (7::nat)) = 130" by simp
  from planner_contract [OF h, of "replicate 130 (7::nat)"] h l show ?thesis by blast
qed

text \<open>
  Claim C4, as stated for every offset and window, fails: the values come from
  \<^verbatim>\<open>parseInt\<close> of the environment and may be negative, and \<^verbatim>\<open>slice\<close> counts a
  negative index from the end. With three sites, offset 0 and window -1 the range
  \<open>[0, -1)\<close> is empty and the slice holds the first two sites; with offset -1 and window
  50 the range holds all three sites and the slice holds the last one.
\<close>

theorem planner_negative_counterexample:
  "laStations [10, 11, 12 :: nat] 0 (- 1) = [10, 11]
   \<and> sitesInRange [10, 11, 12 :: nat] 0 (min (0 + (- 1)) (int (length [10, 11, 12 :: nat]))) = []
   \<and> laStations [10, 11, 12 :: nat] (- 1) 50 = [12]
   \<and> sitesInRange [10, 11, 12 :: nat] (- 1) (min (- 1 + 50) (int (length [10, 11, 12 :: nat])))
        = [10, 11, 12]"
  by (simp add: laStations_def js_slice_def relIndex_def endOffset_def sitesInRange_def Let_def
      upt_rec)

section \<open>Properties of hour alignment\<close>

lemma hours_of_day: "(t::int) div 86400000 * 86400000 + (t div 3600000) mod 24 * 3600000
                      = t div 3600000 * 3600000"
proof -
  define x where "x = t div 3600000"
  have d: "t div 86400000 = x div 24"
    unfolding x_def using zdiv_zmult2_eq [of 24 t 3600000] by simp
  have x: "x div 24 * 24 + x mod 24 = x" by simp
  have g: "\<And>a b::int. (a * 24 + b) * 3600000 = a * 86400000 + b * 3600000" by simp
  have "x * 3600000 = (x div 24 * 24 + x mod 24) * 3600000" by (simp only: x)
  also have "\<dots> = x div 24 * 86400000 + x mod 24 * 3600000" by (rule g)
  finally show ?thesis unfolding d x_def [symmetric] by simp
qed

lemma alignHour_fixed: "alignHour (fixedZone tza) t = (t + tza) div 3600000 * 3600000 - tza"
  using hours_of_day [of "t + tza"]
  by (simp add: alignHour_def setMinutes_def LocalTime_def UTC_def MakeDate_def MakeTime_def
      Day_def HourFromTime_def msPerDay_def msPerHour_def fixedZone_def Let_def)

lemma sameClockHour_fixed:
  "sameClockHour (fixedZone tza) t1 t2 = ((t1 + tza) div 3600000 = (t2 + tza) div 3600000)"
proof -
  have d: "\<And>t::int. t div 86400000 = (t div 3600000) div 24"
    using zdiv_zmult2_eq [of 24 _ 3600000] by simp
  have "\<And>x y::int. (x div 24 = y div 24 \<and> x mod 24 = y mod 24) = (x = y)"
    by (metis mult_div_mod_eq)
  then show ?thesis
    by (simp add: sameClockHour_def Day_def HourFromTime_def LocalTime_def msPerDay_def
        msPerHour_def fixedZone_def d)
qed

lemma local_aligned_fixed:
  "LocalTime (fixedZone tza) (alignHour (fixedZone tza) t) = (t + tza) div 3600000 * 3600000"
  unfolding LocalTime_def alignHour_fixed by (simp add: fixedZone_def)

text \<open>
  Claim C9, as amended. On a host whose time zone has a fixed offset from UTC, hour
  alignment zeroes the minutes, seconds and milliseconds of the local time and gives the
  start of the clock hour of its argument, at most an hour before it; two time values are
  aligned to the same time value exactly when they lie in the same clock hour (so different
  hours give different aligned values); aligning an aligned time value changes nothing.
\<close>

theorem hour_alignment:
  "MinFromTime (LocalTime (fixedZone tza) (alignHour (fixedZone tza) t)) = 0
   \<and> SecFromTime (LocalTime (fixedZone tza) (alignHour (fixedZone tza) t)) = 0
   \<and> msFromTime (LocalTime (fixedZone tza) (alignHour (fixedZone tza) t)) = 0
   \<and> sameClockHour (fixedZone tza) (alignHour (fixedZone tza) t) t
   \<and> alignHour (fixedZone tza) t \<le> t
   \<and> t < alignHour (fixedZone tza) t + msPerHour
   \<and> (alignHour (fixedZone tza) t1 = alignHour (fixedZone tza) t2)
        = sameClockHour (fixedZone tza) t1 t2
   \<and> alignHour (fixedZone tza) (alignHour (fixedZone tza) t) = alignHour (fixedZone tza) t"
proof -
  let ?z = "fixedZone tza"
  let ?h = "(t + tza) div 3600000"
  have l: "LocalTime ?z (alignHour ?z t) = ?h * 3600000" by (rule local_aligned_fixed)
  have "(?h * 3600000) div 60000 = ?h * 60" by simp
  then have a: "MinFromTime (LocalTime ?z (alignHour ?z t)) = 0"
    unfolding l MinFromTime_def msPerMinute_def by simp
  have "(?h * 3600000) div 1000 = ?h * 3600" by simp
  then have b: "SecFromTime (LocalTime ?z (alignHour ?z t)) = 0"
    unfolding l SecFromTime_def msPerSecond_def by simp
  have c: "msFromTime (LocalTime ?z (alignHour ?z t)) = 0"
    unfolding l msFromTime_def msPerSecond_def by simp
  have hh: "(alignHour ?z t + tza) div 3600000 = ?h" by (simp add: alignHour_fixed)
  then have d: "sameClockHour ?z (alignHour ?z t) t" by (simp add: sameClockHour_fixed)
  have e: "alignHour ?z t \<le> t"
    unfolding alignHour_fixed by (simp flip: minus_mod_eq_div_mult)
  have "(t + tza) mod 3600000 < 3600000" by simp
  then have e': "t < alignHour ?z t + msPerHour"
    unfolding alignHour_fixed msPerHour_def by (simp flip: minus_mod_eq_div_mult)
  have f: "(alignHour ?z t1 = alignHour ?z t2) = sameClockHour ?z t1 t2"
    by (simp add: alignHour_fixed sameClockHour_fixed)
  have g: "alignHour ?z (alignHour ?z t) = alignHour ?z t"
    using hh by (simp add: alignHour_fixed)
  from a b c d e e' f g show ?thesis by blast
qed

text \<open>
  Claim C9, as stated for every host, fails: under the rules of America/Los_Angeles
  the time values of 08:30 and 09:30 UTC on 2023-11-05, a full hour apart, both read 01:30
  on the local clock and are both aligned to 08:00 UTC, which for the second is ninety
  minutes earlier.
\<close>

theorem hour_alignment_dst_counterexample:
  "alignHour losAngeles2023 1699173000000 = 1699171200000
   \<and> alignHour losAngeles2023 1699176600000 = 1699171200000
   \<and> 1699176600000 - 1699173000000 = msPerHour
   \<and> alignHour losAngeles2023 1699176600000 + msPerHour \<le> 1699176600000"
  by (simp add: alignHour_def setMinutes_def LocalTime_def UTC_def MakeDate_def MakeTime_def
      Day_def HourFromTime_def msPerDay_def msPerHour_def msPerMinute_def msPerSecond_def
      losAngeles2023_def Let_def)

section \<open>Properties of the site matcher\<close>

lemma find_snoc:
  "find P (xs @ [x]) = (case find P xs of Some y \<Rightarrow> Some y | None \<Rightarrow> if P x then Some x else None)"
  by (induction xs) auto

lemma putLocation_plain:
  assumes "''__proto__'' \<notin> set (keysOfLocation lc loc)"
  shows "putLocation lc m loc
           = m\<lparr> o_own := (\<lambda>k. if hasKey lc k loc then Some loc else o_own m k) \<rparr>"
proof -
  have "(\<lambda>k. if hasKey lc k loc then Some loc else o_own m k)
          = (case nameKey lc (l_name loc) of
               None \<Rightarrow> (case idKey (l_id loc) of None \<Rightarrow> o_own m | Some k \<Rightarrow> (o_own m)(k \<mapsto> loc))
             | Some k' \<Rightarrow> (case idKey (l_id loc) of None \<Rightarrow> o_own m
                                                | Some k \<Rightarrow> (o_own m)(k \<mapsto> loc))(k' \<mapsto> loc))"
    by (rule ext) (auto simp: hasKey_def split: option.splits)
  then show ?thesis
    using assms
    by (auto simp: putLocation_def keysOfLocation_def setProp_def Let_def split: option.splits)
qed

lemma buildLocationMap_plain:
  "''__proto__'' \<notin> set (concat (map (keysOfLocation lc) locs)) \<Longrightarrow>
   buildLocationMap lc m locs
     = m\<lparr> o_own := (\<lambda>k. case lastCandidate lc k locs of Some loc \<Rightarrow> Some loc | None \<Rightarrow> o_own m k) \<rparr>"
proof (induction locs arbitrary: m)
  case Nil
  then show ?case by (simp add: lastCandidate_def)
next
  case (Cons loc locs)
  then have a: "''__proto__'' \<notin> set (keysOfLocation lc loc)"
    and b: "''__proto__'' \<notin> set (concat (map (keysOfLocation lc) locs))"
    by simp_all
  let ?m1 = "m\<lparr> o_own := (\<lambda>k. if hasKey lc k loc then Some loc else o_own m k) \<rparr>"
  have "(\<lambda>k. case lastCandidate lc k locs of Some l \<Rightarrow> Some l | None \<Rightarrow> o_own ?m1 k)
        = (\<lambda>k. case lastCandidate lc k (loc # locs) of Some l \<Rightarrow> Some l | None \<Rightarrow> o_own m k)"
    by (rule ext) (simp add: lastCandidate_def find_snoc split: option.splits)
  then have "?m1\<lparr> o_own := (\<lambda>k. case lastCandidate lc k locs of Some l \<Rightarrow> Some l
                                     | None \<Rightarrow> o_own ?m1 k) \<rparr>
        = m\<lparr> o_own := (\<lambda>k. case lastCandidate lc k (loc # locs) of Some l \<Rightarrow> Some l
                                     | None \<Rightarrow> o_own m k) \<rparr>"
    by simp
  then show ?case
    unfolding buildLocationMap.simps putLocation_plain [OF a] Cons.IH [OF b] .
qed

lemma lookupLocation_plain:
  assumes "o_proto m = None" and "k \<notin> set objectPrototypeKeys"
  shows "lookupLocation m k = map_option Own (o_own m k)"
proof -
  from assms(2) have "k \<noteq> ''__proto__''" by (auto simp: objectPrototypeKeys_def)
  with assms show ?thesis
    by (cases "o_own m k")
       (simp_all add: lookupLocation_def getProp_def fromObjectPrototype_def truthyProp_def)
qed

lemma matchLoop_classify:
  assumes "o_proto m = None" and "\<And>k. o_own m k = candidate k locs"
  shows "set (concat (map (keysOfStation lc) sts)) \<inter> set objectPrototypeKeys = {} \<Longrightarrow>
     matchLoop lc m sts matched unmatched
     = (matched @ List.map_filter (classify candidate lc locs) sts,
        unmatched @ filter (\<lambda>s. classify candidate lc locs s = None) sts)"
proof (induction sts arbitrary: matched unmatched)
  case Nil
  then show ?case by (simp add: List.map_filter_simps)
next
  case (Cons s sts)
  then have rest: "set (concat (map (keysOfStation lc) sts)) \<inter> set objectPrototypeKeys = {}"
    and here: "set (keysOfStation lc s) \<inter> set objectPrototypeKeys = {}"
    by auto
  have i: "Option.bind (idKey (st_id s)) (lookupLocation m)
             = map_option Own (Option.bind (idKey (st_id s)) (\<lambda>k. candidate k locs))"
    using here lookupLocation_plain [OF assms(1)] assms(2)
    by (cases "idKey (st_id s)") (auto simp: keysOfStation_def)
  have n: "Option.bind (nameKey lc (st_name s)) (lookupLocation m)
             = map_option Own (Option.bind (nameKey lc (st_name s)) (\<lambda>k. candidate k locs))"
    using here lookupLocation_plain [OF assms(1)] assms(2)
    by (cases "nameKey lc (st_name s)") (auto simp: keysOfStation_def)
  show ?case
    by (simp add: Cons.IH [OF rest] i n classify_def List.map_filter_simps split: option.splits)
qed

text \<open>
  Claim C5, as amended. When no upstream key is \<open>__proto__\<close> and no key of a local site
  is the name of a member of \<^verbatim>\<open>Object.prototype\<close>: the lookup is keyed by the upstream
  ids and by the lower-cased upstream names; each local site is matched by its id key first,
  then by its lower-cased name, and is unmatched otherwise; the matched and the unmatched
  sites keep the order of the local list. When several upstream candidates share a key, the
  last of them in the upstream list is the one matched.
\<close>

theorem matchStations_last_candidate:
  assumes "plainKeys lc dbStations openaqLocations"
  shows "matchStations lc dbStations openaqLocations
     = (List.map_filter (classify (lastCandidate lc) lc openaqLocations) dbStations,
        filter (\<lambda>s. classify (lastCandidate lc) lc openaqLocations s = None) dbStations)"
proof -
  from assms have a: "''__proto__'' \<notin> set (concat (map (keysOfLocation lc) openaqLocations))"
    and b: "set (concat (map (keysOfStation lc) dbStations)) \<inter> set objectPrototypeKeys = {}"
    by (simp_all add: plainKeys_def)
  let ?m = "buildLocationMap lc emptyObject openaqLocations"
  have p: "o_proto ?m = None"
    by (simp add: buildLocationMap_plain [OF a] emptyObject_def)
  have o: "\<And>k. o_own ?m k = lastCandidate lc k openaqLocations"
    by (simp add: buildLocationMap_plain [OF a] emptyObject_def split: option.splits)
  from matchLoop_classify [where candidate = "lastCandidate lc" and locs = openaqLocations
      and matched = "[]" and unmatched = "[]", OF p o b]
  show ?thesis by (simp add: matchStations_def)
qed

text \<open>
  Claim C5, as stated, fails in three ways. Two upstream locations share the lower-cased
  name \<open>site a\<close>: the local site of that name is matched to the second one, while the
  first matching candidate is the first one. With no upstream location at all, the local
  site named \<open>constructor\<close> is matched by name, to the member of
  \<^verbatim>\<open>Object.prototype\<close> that the lookup object inherits. And an upstream location named
  \<open>__proto__\<close> becomes the prototype of the lookup object, so that the local site named
  \<open>name\<close>, a key of no upstream location, is matched by name to the property
  \<^verbatim>\<open>name\<close> of that location.
\<close>

theorem matchStations_counterexample:
  "matchStations asciiToLowerCase
       [\<lparr> st_oid = 0, st_id = None, st_name = Some ''site a'', st_coordinates = None,
          st_lastDataUpdate = None \<rparr>]
       [\<lparr> l_id = Some (IdNum 1), l_name = Some ''Site A'', l_others = [] \<rparr>,
        \<lparr> l_id = Some (IdNum 2), l_name = Some ''SITE A'', l_others = [] \<rparr>]
     = ([\<lparr> dbStation = \<lparr> st_oid = 0, st_id = None, st_name = Some ''site a'',
                         st_coordinates = None, st_lastDataUpdate = None \<rparr>,
           openaqLocation = Own \<lparr> l_id = Some (IdNum 2), l_name = Some ''SITE A'', l_others = [] \<rparr>,
           matchType = ByName \<rparr>], [])
   \<and> firstCandidate asciiToLowerCase ''site a''
       [\<lparr> l_id = Some (IdNum 1), l_name = Some ''Site A'', l_others = [] \<rparr>,
        \<lparr> l_id = Some (IdNum 2), l_name = Some ''SITE A'', l_others = [] \<rparr>]
     = Some \<lparr> l_id = Some (IdNum 1), l_name = Some ''Site A'', l_others = [] \<rparr>
   \<and> matchStations asciiToLowerCase
       [\<lparr> st_oid = 0, st_id = None, st_name = Some ''constructor'', st_coordinates = None,
          st_lastDataUpdate = None \<rparr>]
       []
     = ([\<lparr> dbStation = \<lparr> st_oid = 0, st_id = None, st_name = Some ''constructor'',
                         st_coordinates = None, st_lastDataUpdate = None \<rparr>,
           openaqLocation = Member ''constructor'', matchType = ByName \<rparr>], [])
   \<and> matchStations asciiToLowerCase
       [\<lparr> st_oid = 0, st_id = None, st_name = Some ''name'', st_coordinates = None,
          st_lastDataUpdate = None \<rparr>]
       [\<lparr> l_id = Some (IdNum 1), l_name = Some ''__proto__'', l_others = [] \<rparr>]
     = ([\<lparr> dbStation = \<lparr> st_oid = 0, st_id = None, st_name = Some ''name'',
                         st_coordinates = None, st_lastDataUpdate = None \<rparr>,
           openaqLocation
             = Inherited \<lparr> l_id = Some (IdNum 1), l_name = Some ''__proto__'', l_others = [] \<rparr>
                 ''name'',
           matchType = ByName \<rparr>], [])
   \<and> firstCandidate asciiToLowerCase ''name''
       [\<lparr> l_id = Some (IdNum 1), l_name = Some ''__proto__'', l_others = [] \<rparr>]
     = None"
  by (simp add: matchStations_def putLocation_def idKey_def nameKey_def asciiToLowerCase_def
      asciiLowerChar_def firstCandidate_def hasKey_def setProp_def emptyObject_def
      lookupLocation_def getProp_def fromObjectPrototype_def truthyProp_def locationProps_def
      objectPrototypeKeys_def numberToString_def digitsOf.simps Let_def)

text \<open>
  The theorem at three local sites and two upstream locations that share the lower-cased
  name \<open>site a\<close>: the first site is matched by id, the second by name to the last of the
  two candidates, the third is unmatched.
\<close>

theorem matchStations_last_candidate_witness:
  "plainKeys asciiToLowerCase
       [\<lparr> st_oid = 0, st_id = Some (IdNum 2), st_name = Some ''Elsewhere'', st_coordinates = None,
          st_lastDataUpdate = None \<rparr>,
        \<lparr> st_oid = 1, st_id = None, st_name = Some ''site a'', st_coordinates = None,
          st_lastDataUpdate = None \<rparr>,
        \<lparr> st_oid = 2, st_id = None, st_name = Some ''Nowhere'', st_coordinates = None,
          st_lastDataUpdate = None \<rparr>]
       [\<lparr> l_id = Some (IdNum 1), l_name = Some ''Site A'', l_others = [] \<rparr>,
        \<lparr> l_id = Some (IdNum 2), l_name = Some ''SITE A'', l_others = [] \<rparr>]
   \<and> matchStations asciiToLowerCase
       [\<lparr> st_oid = 0, st_id = Some (IdNum 2), st_name = Some ''Elsewhere'', st_coordinates = None,
          st_lastDataUpdate = None \<rparr>,
        \<lparr> st_oid = 1, st_id = None, st_name = Some ''site a'', st_coordinates = None,
          st_lastDataUpdate = None \<rparr>,
        \<lparr> st_oid = 2, st_id = None, st_name = Some ''Nowhere'', st_coordinates = None,
          st_lastDataUpdate = None \<rparr>]
       [\<lparr> l_id = Some (IdNum 1), l_name = Some ''Site A'', l_others = [] \<rparr>,
        \<lparr> l_id = Some (IdNum 2), l_name = Some ''SITE A'', l_others = [] \<rparr>]
     = ([\<lparr> dbStation = \<lparr> st_oid = 0, st_id = Some (IdNum 2), st_name = Some ''Elsewhere'',
                         st_coordinates = None, st_lastDataUpdate = None \<rparr>,
           openaqLocation = Own \<lparr> l_id = Some (IdNum 2), l_name = Some ''SITE A'', l_others = [] \<rparr>,
           matchType = ById \<rparr>,
         \<lparr> dbStation = \<lparr> st_oid = 1, st_id = None, st_name = Some ''site a'',
                         st_coordinates = None, st_lastDataUpdate = None \<rparr>,
           openaqLocation = Own \<lparr> l_id = Some (IdNum 2), l_name = Some ''SITE A'', l_others = [] \<rparr>,
           matchType = ByName \<rparr>],
        [\<lparr> st_oid = 2, st_id = None, st_name = Some ''Nowhere'', st_coordinates = None,
           st_lastDataUpdate = None \<rparr>])"
proof -
  let ?sts = "[\<lparr> st_oid = 0, st_id = Some (IdNum 2), st_name = Some ''Elsewhere'', st_coordinates = None,
          st_lastDataUpdate = None \<rparr>,
        \<lparr> st_oid = 1, st_id = None, st_name = Some ''site a'', st_coordinates = None,
          st_lastDataUpdate = None \<rparr>,
        \<lparr> st_oid = 2, st_id = None, st_name = Some ''Nowhere'', st_coordinates = None,
          st_lastDataUpdate = None \<rparr>]"
  let ?locs = "[\<lparr> l_id = Some (IdNum 1), l_name = Some ''Site A'', l_others = [] \<rparr>,
        \<lparr> l_id = Some (IdNum 2), l_name = Some ''SITE A'', l_others = [] \<rparr>]"
  have p: "plainKeys asciiToLowerCase ?sts ?locs"
    by (simp add: plainKeys_def keysOfLocation_def keysOfStation_def idKey_def nameKey_def
        asciiToLowerCase_def asciiLowerChar_def objectPrototypeKeys_def numberToString_def
        digitsOf.simps)
  have "(List.map_filter (classify (lastCandidate asciiToLowerCase) asciiToLowerCase ?locs) ?sts,
         filter (\<lambda>s. classify (lastCandidate asciiToLowerCase) asciiToLowerCase ?locs s = None) ?sts)
      = ([\<lparr> dbStation = \<lparr> st_oid = 0, st_id = Some (IdNum 2), st_name = Some ''Elsewhere'',
                         st_coordinates = None, st_lastDataUpdate = None \<rparr>,
           openaqLocation = Own \<lparr> l_id = Some (IdNum 2), l_name = Some ''SITE A'', l_others = [] \<rparr>,
           matchType = ById \<rparr>,
         \<lparr> dbStation = \<lparr> st_oid = 1, st_id = None, st_name = Some ''site a'',
                         st_coordinates = None, st_lastDataUpdate = None \<rparr>,
           openaqLocation = Own \<lparr> l_id = Some (IdNum 2), l_name = Some ''SITE A'', l_others = [] \<rparr>,
           matchType = ByName \<rparr>],
        [\<lparr> st_oid = 2, st_id = None, st_name = Some ''Nowhere'', st_coordinates = None,
           st_lastDataUpdate = None \<rparr>])"
    by (simp add: classify_def lastCandidate_def hasKey_def idKey_def nameKey_def
        asciiToLowerCase_def asciiLowerChar_def numberToString_def digitsOf.simps
        List.map_filter_simps)
  with matchStations_last_candidate [OF p] p show ?thesis by simp
qed

section \<open>Properties of value resolution\<close>

lemma writeSensorStep_answers:
  assumes "s_parameter sensor = Some par" and "storeAnswers e"
  shows "writeSensorStep e stn ct sensor val sim d
     = (Inr (countKey (st_oid stn) (p_name par) ct d = 0),
        d\<lparr> measurementCollection :=
                   (if countKey (st_oid stn) (p_name par) ct d = 0
                    then measurementCollection d @ [measurementDoc stn par val sim ct (e_now e)]
                    else measurementCollection d),
               sensorCollection :=
                   updateOne (\<lambda>s. s_oid s = s_oid sensor)
                     (\<lambda>s. s\<lparr> s_value := val, s_lastUpdated := Some (e_now e), s_isSimulated := Some sim \<rparr>)
                     (sensorCollection d) \<rparr>)"
  using assms
  by (simp add: writeSensorStep_def storeAnswers_def writeSensor_result [OF assms(1)])











section \<open>Properties of the null check\<close>

lemma processSensor_written:
  assumes "s_parameter sensor = Some par" and "storeAnswers e"
    and "resolveValue e sdm sensor = (val, sim)" and "val \<noteq> JNull"
  shows "processSensor e stn ct sdm sensor t d
     = (Inr (if countKey (st_oid stn) (p_name par) ct d = 0
             then \<lparr> stationDataUpdated = True, sensorsProcessed = sensorsProcessed t + 1,
                    recordsCreated = recordsCreated t + 1 \<rparr>
             else t\<lparr> sensorsProcessed := sensorsProcessed t + 1 \<rparr>),
        d\<lparr> measurementCollection :=
                   (if countKey (st_oid stn) (p_name par) ct d = 0
                    then measurementCollection d @ [measurementDoc stn par val sim ct (e_now e)]
                    else measurementCollection d),
               sensorCollection :=
                   updateOne (\<lambda>s. s_oid s = s_oid sensor)
                     (\<lambda>s. s\<lparr> s_value := val, s_lastUpdated := Some (e_now e), s_isSimulated := Some sim \<rparr>)
                     (sensorCollection d) \<rparr>)"
  using assms(3,4) by (simp add: processSensor_def writeSensorStep_answers [OF assms(1,2)])

lemma processStationTry_sensors:
  assumes "\<not> missingId stn" and "getLatestMeasurements e (st_id stn) = latestData"
    and "latestData \<noteq> Items []" and "e_dbFault e (FindSensors (st_oid stn)) = None"
    and "filter (\<lambda>s. s_station s = st_oid stn) (sensorCollection d) = sensors"
    and "sensors \<noteq> []" and "buildSensorDataMap latestData = Inr sdm"
  shows "processStationTry e stn ct d =
     (case sensorLoop e stn ct sdm sensors
             \<lparr> stationDataUpdated = False, sensorsProcessed = 0, recordsCreated = 0 \<rparr> d of
        (Inl err, d') \<Rightarrow> (Inl err, d')
      | (Inr t, d') \<Rightarrow>
          (if stationDataUpdated t
           then
             (case e_dbFault e (UpdateStation (st_oid stn)) of
                Some msg \<Rightarrow> (Inl (Failure msg), d')
              | None \<Rightarrow>
                  (Inr \<lparr> success = True, reason = R_success, r_error = None,
                         r_sensorsProcessed = Some (sensorsProcessed t),
                         r_recordsCreated = Some (recordsCreated t) \<rparr>,
                   d'\<lparr> stationCollection :=
                         updateOne (\<lambda>s. st_oid s = st_oid stn)
                           (\<lambda>s. s\<lparr> st_lastDataUpdate := Some (e_now e) \<rparr>)
                           (stationCollection d') \<rparr>))
           else
             (Inr \<lparr> success = False, reason = R_no_new_data, r_error = None,
                    r_sensorsProcessed = Some (sensorsProcessed t),
                    r_recordsCreated = Some (recordsCreated t) \<rparr>,
              d')))"
  unfolding processStationTry_def using assms by (simp add: Let_def)






section \<open>Evaluation of the example data\<close>


lemma numberKey_8: "numberKey (Some 8) = ''8''"
  by (simp add: numberKey_def numberToString_def digitsOf.simps)

lemma exEnv_latest:
  "e_net e = e_net (exEnv v) \<Longrightarrow> getLatestMeasurements e i = exPayload v"
  by (simp add: getLatestMeasurements_def fetchWithRetry_def fetchLoop.simps attemptOnce_def
      response_ok_def exEnv_def)

lemma exPayload_map:
  "buildSensorDataMap (exPayload v)
     = Inr (Map.empty(''8'' \<mapsto> \<lparr> sensorsId = Some 8, r_value = v \<rparr>))"
  by (simp add: buildSensorDataMap_def exPayload_def numberKey_8)






lemma exDb_sensors:
  "filter (\<lambda>s. s_station s = st_oid exStationA) (sensorCollection exDb) = [exSensorA]"
  "filter (\<lambda>s. s_station s = st_oid exStationB) (sensorCollection exDb) = [exSensorB]"
  by (simp_all add: exDb_def exStationA_def exStationB_def exSensorA_def exSensorB_def)

lemma ex_not_missing: "\<not> missingId exStationA" "\<not> missingId exStationB"
  by (simp_all add: missingId_def exStationA_def exStationB_def)

lemma exPayload_nonempty: "exPayload v \<noteq> Items []"
  by (simp add: exPayload_def)




lemma exStationB_run:
  assumes "e_net e = e_net (exEnv (JNumber x))" and "storeAnswers e"
    and "filter (\<lambda>s. s_station s = st_oid exStationB) (sensorCollection d) = [exSensorB]"
    and "countKey (st_oid exStationB) (p_name exParameter) ct d = 0"
  shows "processStation e exStationB ct d
       = (\<lparr> success = True, reason = R_success, r_error = None,
            r_sensorsProcessed = Some 1, r_recordsCreated = Some 1 \<rparr>,
          d\<lparr> measurementCollection :=
                measurementCollection d
                  @ [measurementDoc exStationB exParameter (JNumber x) False ct (e_now e)],
              sensorCollection :=
                updateOne (\<lambda>s. s_oid s = s_oid exSensorB)
                  (\<lambda>s. s\<lparr> s_value := JNumber x, s_lastUpdated := Some (e_now e),
                           s_isSimulated := Some False \<rparr>)
                  (sensorCollection d),
              stationCollection :=
                updateOne (\<lambda>s. st_oid s = st_oid exStationB)
                  (\<lambda>s. s\<lparr> st_lastDataUpdate := Some (e_now e) \<rparr>)
                  (stationCollection d) \<rparr>)"
proof -
  let ?sdm = "Map.empty(''8'' \<mapsto> \<lparr> sensorsId = Some 8, r_value = JNumber x \<rparr>)"
  let ?t = "\<lparr> stationDataUpdated = False, sensorsProcessed = 0, recordsCreated = 0 \<rparr>"
  have ne: "[exSensorB] \<noteq> []" by simp
  have p: "s_parameter exSensorB = Some exParameter" by (simp add: exSensorB_def)
  from assms(2) have f: "e_dbFault e op = None" for op by (simp add: storeAnswers_def)
  have r: "resolveValue e ?sdm exSensorB = (JNumber x, False)"
    by (simp add: resolveValue_def realReading_def sensorIdOf_def truthyNum_def exSensorB_def
        numberKey_8)
  have n: "JNumber x \<noteq> JNull" by simp
  note ps = processSensor_written [OF p assms(2) r n, of exStationB ct ?t d]
  have tr: "processStationTry e exStationB ct d
       = (Inr \<lparr> success = True, reason = R_success, r_error = None,
            r_sensorsProcessed = Some 1, r_recordsCreated = Some 1 \<rparr>,
          d\<lparr> measurementCollection :=
                measurementCollection d
                  @ [measurementDoc exStationB exParameter (JNumber x) False ct (e_now e)],
              sensorCollection :=
                updateOne (\<lambda>s. s_oid s = s_oid exSensorB)
                  (\<lambda>s. s\<lparr> s_value := JNumber x, s_lastUpdated := Some (e_now e),
                           s_isSimulated := Some False \<rparr>)
                  (sensorCollection d),
              stationCollection :=
                updateOne (\<lambda>s. st_oid s = st_oid exStationB)
                  (\<lambda>s. s\<lparr> st_lastDataUpdate := Some (e_now e) \<rparr>)
                  (stationCollection d) \<rparr>)"
    unfolding processStationTry_sensors [OF ex_not_missing(2) exEnv_latest [OF assms(1)]
        exPayload_nonempty f assms(3) ne exPayload_map] sensorLoop.simps ps
    using assms(4) by (simp add: f)
  show ?thesis unfolding processStation_def tr by simp
qed

lemma exDb_countKey: "countKey oid name ct exDb = 0"
  by (simp add: countKey_def exDb_def)



section \<open>Value resolution and null check on the example data\<close>





section \<open>Properties of the batch runner\<close>

lemma writeSensor_progress:
  "writeSensor n stn ct s v sim (d\<lparr> progressCollection := p \<rparr>)
     = (case writeSensor n stn ct s v sim d of
          Inl err \<Rightarrow> Inl err
        | Inr (c, d') \<Rightarrow> Inr (c, d'\<lparr> progressCollection := p \<rparr>))"
  by (cases "s_parameter s") (simp_all add: writeSensor_def Let_def)

lemma writeSensorStep_progress:
  "writeSensorStep e stn ct s v sim (d\<lparr> progressCollection := p \<rparr>)
     = (case writeSensorStep e stn ct s v sim d of (x, d') \<Rightarrow> (x, d'\<lparr> progressCollection := p \<rparr>))"
proof (cases "s_parameter s")
  case None
  then show ?thesis by (simp add: writeSensorStep_def)
next
  case (Some par)
  show ?thesis
  proof (cases "writeSensor (e_now e) stn ct s v sim d")
    case (Inl err)
    with Some show ?thesis
      by (simp add: writeSensorStep_def writeSensor_progress split: option.splits)
  next
    case (Inr cd)
    obtain c d2 where "cd = (c, d2)" by (cases cd)
    with Inr Some show ?thesis
      by (simp add: writeSensorStep_def writeSensor_progress split: option.splits)
  qed
qed

lemma processSensor_progress:
  "processSensor e stn ct sdm s t (d\<lparr> progressCollection := p \<rparr>)
     = (case processSensor e stn ct sdm s t d of (x, d') \<Rightarrow> (x, d'\<lparr> progressCollection := p \<rparr>))"
  by (cases "resolveValue e sdm s")
    (simp add: processSensor_def writeSensorStep_progress split: prod.splits sum.splits)

lemma sensorLoop_progress:
  "sensorLoop e stn ct sdm sensors t (d\<lparr> progressCollection := p \<rparr>)
     = (case sensorLoop e stn ct sdm sensors t d of (x, d') \<Rightarrow> (x, d'\<lparr> progressCollection := p \<rparr>))"
proof (induction sensors arbitrary: t d)
  case Nil
  then show ?case by simp
next
  case (Cons s rest)
  obtain x d1 where a: "processSensor e stn ct sdm s t d = (x, d1)"
    by (cases "processSensor e stn ct sdm s t d")
  show ?case
  proof (cases x)
    case (Inl err)
    with a show ?thesis by (simp add: processSensor_progress)
  next
    case (Inr t1)
    with a Cons.IH [of t1 d1] show ?thesis by (simp add: processSensor_progress)
  qed
qed

lemma processStationTry_progress:
  "processStationTry e stn ct (d\<lparr> progressCollection := p \<rparr>)
     = (case processStationTry e stn ct d of (x, d') \<Rightarrow> (x, d'\<lparr> progressCollection := p \<rparr>))"
  by (simp add: processStationTry_def Let_def sensorLoop_progress
      split: option.splits sum.splits prod.splits)

lemma processStation_progress:
  "processStation e stn ct (d\<lparr> progressCollection := p \<rparr>)
     = (case processStation e stn ct d of (r, d') \<Rightarrow> (r, d'\<lparr> progressCollection := p \<rparr>))"
  by (simp add: processStation_def processStationTry_progress split: prod.splits sum.splits)

lemma runSites_Nil: "runSites e ct [] d = ([], d)"
  by (simp add: runSites_def)

lemma runSites_foldl:
  "foldl (\<lambda>(rs, d0) stn. case processStation e stn ct d0 of (r, d1) \<Rightarrow> (rs @ [r], d1))
       (acc, d) stations
     = (acc @ fst (runSites e ct stations d), snd (runSites e ct stations d))"
proof (induction stations arbitrary: acc d)
  case Nil
  then show ?case by (simp add: runSites_def)
next
  case (Cons stn rest)
  obtain r d1 where a: "processStation e stn ct d = (r, d1)"
    by (cases "processStation e stn ct d")
  show ?case
    unfolding runSites_def using a Cons.IH [of "acc @ [r]" d1] Cons.IH [of "[r]" d1]
    by (simp add: runSites_def)
qed

lemma runSites_Cons:
  "runSites e ct (stn # rest) d
     = (case processStation e stn ct d of
          (r, d1) \<Rightarrow> (case runSites e ct rest d1 of (rs, d2) \<Rightarrow> (r # rs, d2)))"
proof -
  obtain r d1 where a: "processStation e stn ct d = (r, d1)"
    by (cases "processStation e stn ct d")
  have "runSites e ct (stn # rest) d
      = foldl (\<lambda>(rs, d0) stn. case processStation e stn ct d0 of (r, d1) \<Rightarrow> (rs @ [r], d1))
          ([r], d1) rest"
    using a by (simp add: runSites_def)
  also have "\<dots> = ([r] @ fst (runSites e ct rest d1), snd (runSites e ct rest d1))"
    by (rule runSites_foldl)
  finally show ?thesis using a by (simp split: prod.splits)
qed

lemma processBatch_runSites: "processBatch e ct stations d = runSites e ct stations d"
proof (induction stations arbitrary: d)
  case Nil
  then show ?case by (simp add: runSites_Nil)
next
  case (Cons stn rest)
  then show ?case by (simp add: runSites_Cons split: prod.splits)
qed

lemma runSites_append:
  "runSites e ct (xs @ ys) d
     = (case runSites e ct xs d of
          (rs, d1) \<Rightarrow> (case runSites e ct ys d1 of (rs2, d2) \<Rightarrow> (rs @ rs2, d2)))"
proof (induction xs arbitrary: d)
  case Nil
  then show ?case by (simp add: runSites_Nil split: prod.splits)
next
  case (Cons x xs)
  then show ?case by (simp add: runSites_Cons split: prod.splits)
qed

lemma runSites_length: "length (fst (runSites e ct stations d)) = length stations"
proof (induction stations arbitrary: d)
  case Nil
  then show ?case by (simp add: runSites_Nil)
next
  case (Cons stn rest)
  obtain r d1 where a: "processStation e stn ct d = (r, d1)"
    by (cases "processStation e stn ct d")
  obtain rs d2 where b: "runSites e ct rest d1 = (rs, d2)"
    by (cases "runSites e ct rest d1")
  from Cons.IH [of d1] a b show ?case by (simp add: runSites_Cons)
qed

lemma runSites_nth:
  "i < length stations \<Longrightarrow>
   fst (runSites e ct stations d) ! i
     = fst (processStation e (stations ! i) ct (snd (runSites e ct (take i stations) d)))"
proof (induction stations arbitrary: d i)
  case Nil
  then show ?case by simp
next
  case (Cons stn rest)
  obtain r d1 where a: "processStation e stn ct d = (r, d1)"
    by (cases "processStation e stn ct d")
  show ?case
  proof (cases i)
    case 0
    with a show ?thesis by (simp add: runSites_Cons runSites_Nil split: prod.splits)
  next
    case (Suc j)
    with Cons.prems have "j < length rest" by simp
    note ih = Cons.IH [OF this, of d1]
    obtain rs d2 where b: "runSites e ct rest d1 = (rs, d2)"
      by (cases "runSites e ct rest d1")
    obtain rs' d2' where c: "runSites e ct (take j rest) d1 = (rs', d2')"
      by (cases "runSites e ct (take j rest) d1")
    from ih a b c Suc show ?thesis by (simp add: runSites_Cons)
  qed
qed

lemma runSites_progress:
  "runSites e ct stations (d\<lparr> progressCollection := p \<rparr>)
     = (case runSites e ct stations d of (rs, d') \<Rightarrow> (rs, d'\<lparr> progressCollection := p \<rparr>))"
proof (induction stations arbitrary: d)
  case Nil
  then show ?case by (simp add: runSites_Nil)
next
  case (Cons stn rest)
  obtain r d1 where a: "processStation e stn ct d = (r, d1)"
    by (cases "processStation e stn ct d")
  from Cons.IH [of d1] a show ?case
    by (simp add: runSites_Cons processStation_progress split: prod.splits)
qed

lemma batch_slice:
  "i < length xs \<Longrightarrow> js_slice xs (int i) (int (i + batchSize)) = take batchSize (drop i xs)"
  by (simp add: js_slice_def relIndex_def Let_def min_def nat_int_add)

lemma last_batch_number:
  assumes "\<not> i + 3 < (n::nat)" and "i < n" and "i mod 3 = 0"
  shows "i div 3 + 1 = (n + 3 - 1) div 3"
proof -
  define q where "q = i div 3"
  have i: "i = 3 * q" using assms(3) unfolding q_def by (simp add: mod_eq_0_iff_dvd)
  have "3 * (q + 1) \<le> n + 2" using i assms(2) by simp
  then have "(3 * (q + 1)) div 3 \<le> (n + 2) div 3" by (rule div_le_mono)
  then have lo: "q + 1 \<le> (n + 2) div 3" by simp
  have "n + 2 < (q + 2) * 3" using i assms(1) by simp
  then have hi: "(n + 2) div 3 < q + 2" by (rule less_mult_imp_div_less)
  from lo hi show ?thesis unfolding q_def by simp
qed

lemma batchLoop_runSites:
  "\<forall>n. e_dbFault e (UpsertProgress n) = None \<Longrightarrow> i mod batchSize = 0 \<Longrightarrow>
   batchLoop e ct stations offset maxPerRun totalSt i res d
     = (Inr (foldl tallyResult res (fst (runSites e ct (drop i stations) d))),
        if i < length stations
        then (snd (runSites e ct (drop i stations) d))
               \<lparr> progressCollection :=
                   Some (checkpointOf e offset maxPerRun totalSt
                           ((length stations + batchSize - 1) div batchSize)) \<rparr>
        else d)"
proof (induction e ct stations offset maxPerRun totalSt i res d rule: batchLoop.induct)
  case (1 e ct stations offset maxPerRun totalSt i res d)
  show ?case
  proof (cases "i < length stations")
    case False
    then show ?thesis by (subst batchLoop.simps) (simp add: runSites_Nil)
  next
    case True
    let ?batch = "take batchSize (drop i stations)"
    let ?rest = "drop (i + batchSize) stations"
    obtain rs1 d1 where r1: "runSites e ct ?batch d = (rs1, d1)"
      by (cases "runSites e ct ?batch d")
    obtain rs2 d2 where r2: "runSites e ct ?rest d1 = (rs2, d2)"
      by (cases "runSites e ct ?rest d1")
    let ?cp = "Some (checkpointOf e offset maxPerRun totalSt (i div batchSize + 1))"
    let ?final = "Some (checkpointOf e offset maxPerRun totalSt
                           ((length stations + batchSize - 1) div batchSize))"
    have pb: "processBatch e ct (js_slice stations (int i) (int (i + batchSize))) d = (rs1, d1)"
      unfolding batch_slice [OF True] processBatch_runSites by (rule r1)
    have f: "e_dbFault e (UpsertProgress (i div batchSize + 1)) = None" using 1(2) by simp
    have sp: "drop i stations = ?batch @ ?rest"
      by (simp add: add.commute [of i batchSize] flip: drop_drop)
    have all: "runSites e ct (drop i stations) d = (rs1 @ rs2, d2)"
      by (subst sp) (simp add: runSites_append r1 r2)
    have r2': "runSites e ct ?rest (d1\<lparr> progressCollection := ?cp \<rparr>)
         = (rs2, d2\<lparr> progressCollection := ?cp \<rparr>)"
      by (simp add: runSites_progress r2)
    have m: "(i + batchSize) mod batchSize = 0" using 1(3) by simp
    have eq: "batchLoop e ct stations offset maxPerRun totalSt i res d
        = batchLoop e ct stations offset maxPerRun totalSt (i + batchSize)
            (foldl tallyResult res rs1) (d1\<lparr> progressCollection := ?cp \<rparr>)"
      using True pb f by (subst batchLoop.simps) simp
    note ih = 1(1) [OF True pb [symmetric] f 1(2) m]
    show ?thesis
    proof (cases "i + batchSize < length stations")
      case True
      show ?thesis unfolding eq ih r2' all using True \<open>i < length stations\<close> by simp
    next
      case False
      then have e2: "?rest = []" by simp
      from r2 have "rs2 = []" "d2 = d1" unfolding e2 by (simp_all add: runSites_Nil)
      moreover have "i div batchSize + 1 = (length stations + batchSize - 1) div batchSize"
        using False True 1(3) unfolding batchSize_def by (rule last_batch_number)
      ultimately show ?thesis unfolding eq ih r2' all using False True by simp
    qed
  qed
qed

lemma processStationTry_no_error:
  "processStationTry e stn ct d = (Inr r, d1) \<Longrightarrow> reason r \<noteq> R_error"
  by (auto simp: processStationTry_def Let_def failed_with_def
      split: if_splits option.splits sum.splits prod.splits)

lemma runSites_snoc:
  "runSites e ct (xs @ [stn]) d
     = (fst (runSites e ct xs d) @ [fst (processStation e stn ct (snd (runSites e ct xs d)))],
        snd (processStation e stn ct (snd (runSites e ct xs d))))"
  by (simp add: runSites_append runSites_Cons runSites_Nil split: prod.splits)

lemma handler_runSites:
  assumes "e_dbFault e FindStations = None"
    and "filter inLaBounds (stationCollection d) \<noteq> []"
    and "\<forall>n. e_dbFault e (UpsertProgress n) = None"
  shows "handler e maxPerRun offset d
     = (Ok200 (foldl tallyResult
                 \<lparr> res_total = length (laStations (filter inLaBounds (stationCollection d))
                                         offset maxPerRun),
                   successful = 0, failed = 0, failureReasons = (\<lambda>why. 0),
                   res_sensorsProcessed = 0, res_recordsCreated = 0,
                   res_paging = pagingOf (filter inLaBounds (stationCollection d))
                                  offset maxPerRun \<rparr>
                 (fst (runSites e (alignHour (e_zone e) (e_now e))
                         (laStations (filter inLaBounds (stationCollection d)) offset maxPerRun)
                         d))),
        if laStations (filter inLaBounds (stationCollection d)) offset maxPerRun = [] then d
        else (snd (runSites e (alignHour (e_zone e) (e_now e))
                     (laStations (filter inLaBounds (stationCollection d)) offset maxPerRun) d))
               \<lparr> progressCollection :=
                   Some (checkpointOf e offset maxPerRun
                           (length (filter inLaBounds (stationCollection d)))
                           ((length (laStations (filter inLaBounds (stationCollection d))
                                       offset maxPerRun) + batchSize - 1) div batchSize)) \<rparr>)"
proof -
  have z: "(0::nat) mod batchSize = 0" by simp
  show ?thesis
    unfolding handler_def Let_def batchLoop_runSites [OF assms(3) z]
    using assms(1,2) by simp
qed

lemma foldl_tallyResult_counts:
  "successful (foldl tallyResult res rs) + failed (foldl tallyResult res rs)
     = successful res + failed res + length rs
   \<and> res_total (foldl tallyResult res rs) = res_total res
   \<and> res_paging (foldl tallyResult res rs) = res_paging res"
proof (induction rs arbitrary: res)
  case Nil
  then show ?case by simp
next
  case (Cons r rs)
  have "successful (tallyResult res r) + failed (tallyResult res r) = successful res + failed res + 1
   \<and> res_total (tallyResult res r) = res_total res
   \<and> res_paging (tallyResult res r) = res_paging res"
    by (simp add: tallyResult_def)
  with Cons.IH [of "tallyResult res r"] show ?case by simp
qed

text \<open>
  Claim C7, as amended. An exception raised while processing a site of the slice is caught
  at the boundary of the site and converted into the outcome \<open>error\<close> with the error
  retained, and the sites after it are processed from the store the calls before the
  exception left; an outcome that is not the conversion of an exception has another reason.
  In a run whose query for the stations succeeds and finds a station within the bounds, and
  whose upserts of the checkpoint succeed, every site of the slice is processed, in order,
  each from the store the sites before it left, whatever the outcomes of the others; the
  run answers with status 200 and the tally of these outcomes, one per site, and when the
  slice is not empty the store at the end is the store the last site left, with the
  checkpoint of the last batch upserted.
\<close>

theorem partial_failure_isolation:
  assumes "e_dbFault e FindStations = None"
    and "filter inLaBounds (stationCollection d) \<noteq> []"
    and "\<forall>n. e_dbFault e (UpsertProgress n) = None"
  shows "\<exists>rs dS.
      runSites e (alignHour (e_zone e) (e_now e))
        (laStations (filter inLaBounds (stationCollection d)) offset maxPerRun) d = (rs, dS)
    \<and> length rs = length (laStations (filter inLaBounds (stationCollection d)) offset maxPerRun)
    \<and> (\<forall>i < length (laStations (filter inLaBounds (stationCollection d)) offset maxPerRun).
          (case processStationTry e
                  (laStations (filter inLaBounds (stationCollection d)) offset maxPerRun ! i)
                  (alignHour (e_zone e) (e_now e))
                  (snd (runSites e (alignHour (e_zone e) (e_now e))
                          (take i (laStations (filter inLaBounds (stationCollection d))
                                     offset maxPerRun)) d)) of
             (Inl err, d1) \<Rightarrow>
               rs ! i = \<lparr> success = False, reason = R_error, r_error = Some err,
                          r_sensorsProcessed = None, r_recordsCreated = None \<rparr>
               \<and> snd (runSites e (alignHour (e_zone e) (e_now e))
                         (take (Suc i) (laStations (filter inLaBounds (stationCollection d))
                                          offset maxPerRun)) d) = d1
           | (Inr r, d1) \<Rightarrow>
               rs ! i = r \<and> reason r \<noteq> R_error
               \<and> snd (runSites e (alignHour (e_zone e) (e_now e))
                         (take (Suc i) (laStations (filter inLaBounds (stationCollection d))
                                          offset maxPerRun)) d) = d1))
    \<and> handler e maxPerRun offset d
        = (Ok200 (foldl tallyResult
                    \<lparr> res_total = length (laStations (filter inLaBounds (stationCollection d))
                                            offset maxPerRun),
                      successful = 0, failed = 0, failureReasons = (\<lambda>why. 0),
                      res_sensorsProcessed = 0, res_recordsCreated = 0,
                      res_paging = pagingOf (filter inLaBounds (stationCollection d))
                                     offset maxPerRun \<rparr> rs),
           if laStations (filter inLaBounds (stationCollection d)) offset maxPerRun = [] then d
           else dS\<lparr> progressCollection :=
                  Some (checkpointOf e offset maxPerRun
                          (length (filter inLaBounds (stationCollection d)))
                          ((length (laStations (filter inLaBounds (stationCollection d))
                                      offset maxPerRun) + batchSize - 1) div batchSize)) \<rparr>)
    \<and> successful (foldl tallyResult
                    \<lparr> res_total = length (laStations (filter inLaBounds (stationCollection d))
                                            offset maxPerRun),
                      successful = 0, failed = 0, failureReasons = (\<lambda>why. 0),
                      res_sensorsProcessed = 0, res_recordsCreated = 0,
                      res_paging = pagingOf (filter inLaBounds (stationCollection d))
                                     offset maxPerRun \<rparr> rs)
      + failed (foldl tallyResult
                    \<lparr> res_total = length (laStations (filter inLaBounds (stationCollection d))
                                            offset maxPerRun),
                      successful = 0, failed = 0, failureReasons = (\<lambda>why. 0),
                      res_sensorsProcessed = 0, res_recordsCreated = 0,
                      res_paging = pagingOf (filter inLaBounds (stationCollection d))
                                     offset maxPerRun \<rparr> rs)
      = length (laStations (filter inLaBounds (stationCollection d)) offset maxPerRun)"
proof -
  let ?slice = "laStations (filter inLaBounds (stationCollection d)) offset maxPerRun"
  let ?ct = "alignHour (e_zone e) (e_now e)"
  let ?res0 = "\<lparr> res_total = length ?slice,
                      successful = 0, failed = 0, failureReasons = (\<lambda>why. 0),
                      res_sensorsProcessed = 0, res_recordsCreated = 0,
                      res_paging = pagingOf (filter inLaBounds (stationCollection d))
                                     offset maxPerRun \<rparr>"
  obtain rs dS where r: "runSites e ?ct ?slice d = (rs, dS)"
    by (cases "runSites e ?ct ?slice d")
  have l: "length rs = length ?slice"
    using runSites_length [of e ?ct ?slice d] r by simp
  have s: "\<forall>i < length ?slice.
          (case processStationTry e (?slice ! i) ?ct (snd (runSites e ?ct (take i ?slice) d)) of
             (Inl err, d1) \<Rightarrow>
               rs ! i = \<lparr> success = False, reason = R_error, r_error = Some err,
                          r_sensorsProcessed = None, r_recordsCreated = None \<rparr>
               \<and> snd (runSites e ?ct (take (Suc i) ?slice) d) = d1
           | (Inr r, d1) \<Rightarrow>
               rs ! i = r \<and> reason r \<noteq> R_error
               \<and> snd (runSites e ?ct (take (Suc i) ?slice) d) = d1)"
  proof (intro allI impI)
    fix i assume i: "i < length ?slice"
    let ?d0 = "snd (runSites e ?ct (take i ?slice) d)"
    obtain x d1 where t: "processStationTry e (?slice ! i) ?ct ?d0 = (x, d1)"
      by (cases "processStationTry e (?slice ! i) ?ct ?d0")
    have n: "rs ! i = fst (processStation e (?slice ! i) ?ct ?d0)"
      using runSites_nth [OF i, of e ?ct d] r by simp
    have k: "snd (runSites e ?ct (take (Suc i) ?slice) d)
           = snd (processStation e (?slice ! i) ?ct ?d0)"
      unfolding take_Suc_conv_app_nth [OF i] runSites_snoc by simp
    show "case processStationTry e (?slice ! i) ?ct ?d0 of
             (Inl err, d1) \<Rightarrow>
               rs ! i = \<lparr> success = False, reason = R_error, r_error = Some err,
                          r_sensorsProcessed = None, r_recordsCreated = None \<rparr>
               \<and> snd (runSites e ?ct (take (Suc i) ?slice) d) = d1
           | (Inr r, d1) \<Rightarrow>
               rs ! i = r \<and> reason r \<noteq> R_error
               \<and> snd (runSites e ?ct (take (Suc i) ?slice) d) = d1"
    proof (cases x)
      case (Inl err)
      with t n k show ?thesis by (simp add: processStation_def)
    next
      case (Inr r')
      with t processStationTry_no_error [of e "?slice ! i" ?ct ?d0 r' d1] n k
      show ?thesis by (simp add: processStation_def)
    qed
  qed
  have h: "handler e maxPerRun offset d
        = (Ok200 (foldl tallyResult ?res0 rs),
           if ?slice = [] then d
           else dS\<lparr> progressCollection :=
                  Some (checkpointOf e offset maxPerRun
                          (length (filter inLaBounds (stationCollection d)))
                          ((length ?slice + batchSize - 1) div batchSize)) \<rparr>)"
    unfolding handler_runSites [OF assms] r by simp
  have c: "successful (foldl tallyResult ?res0 rs) + failed (foldl tallyResult ?res0 rs)
      = length ?slice"
    using foldl_tallyResult_counts [of ?res0 rs] l by simp
  from r l s h c show ?thesis by blast
qed

lemma exStationB_run_ops:
  assumes "e_net e = e_net (exEnv (JNumber x))"
    and "e_dbFault e (FindSensors (st_oid exStationB)) = None"
    and "e_dbFault e (FindOneMeasurement (st_oid exStationB) (p_name exParameter) ct) = None"
    and "e_dbFault e (InsertMeasurement (st_oid exStationB) (p_name exParameter) ct) = None"
    and "e_dbFault e (UpdateSensor (s_oid exSensorB)) = None"
    and "e_dbFault e (UpdateStation (st_oid exStationB)) = None"
    and "filter (\<lambda>s. s_station s = st_oid exStationB) (sensorCollection d) = [exSensorB]"
    and "countKey (st_oid exStationB) (p_name exParameter) ct d = 0"
  shows "processStation e exStationB ct d
       = (\<lparr> success = True, reason = R_success, r_error = None,
            r_sensorsProcessed = Some 1, r_recordsCreated = Some 1 \<rparr>,
          d\<lparr> measurementCollection :=
                measurementCollection d
                  @ [measurementDoc exStationB exParameter (JNumber x) False ct (e_now e)],
              sensorCollection :=
                updateOne (\<lambda>s. s_oid s = s_oid exSensorB)
                  (\<lambda>s. s\<lparr> s_value := JNumber x, s_lastUpdated := Some (e_now e),
                           s_isSimulated := Some False \<rparr>)
                  (sensorCollection d),
              stationCollection :=
                updateOne (\<lambda>s. st_oid s = st_oid exStationB)
                  (\<lambda>s. s\<lparr> st_lastDataUpdate := Some (e_now e) \<rparr>)
                  (stationCollection d) \<rparr>)"
proof -
  let ?sdm = "Map.empty(''8'' \<mapsto> \<lparr> sensorsId = Some 8, r_value = JNumber x \<rparr>)"
  let ?t = "\<lparr> stationDataUpdated = False, sensorsProcessed = 0, recordsCreated = 0 \<rparr>"
  have ne: "[exSensorB] \<noteq> []" by simp
  have p: "s_parameter exSensorB = Some exParameter" by (simp add: exSensorB_def)
  have r: "resolveValue e ?sdm exSensorB = (JNumber x, False)"
    by (simp add: resolveValue_def realReading_def sensorIdOf_def truthyNum_def exSensorB_def
        numberKey_8)
  note w = writeSensor_result [OF p, of "e_now e" exStationB ct "JNumber x" False d]
  have ps: "processSensor e exStationB ct ?sdm exSensorB ?t d
      = (Inr \<lparr> stationDataUpdated = True, sensorsProcessed = 1, recordsCreated = 1 \<rparr>,
         d\<lparr> measurementCollection :=
                measurementCollection d
                  @ [measurementDoc exStationB exParameter (JNumber x) False ct (e_now e)],
              sensorCollection :=
                updateOne (\<lambda>s. s_oid s = s_oid exSensorB)
                  (\<lambda>s. s\<lparr> s_value := JNumber x, s_lastUpdated := Some (e_now e),
                           s_isSimulated := Some False \<rparr>)
                  (sensorCollection d) \<rparr>)"
    using w assms(3,4,5,8) by (simp add: processSensor_def r writeSensorStep_def p)
  have tr: "processStationTry e exStationB ct d
       = (Inr \<lparr> success = True, reason = R_success, r_error = None,
            r_sensorsProcessed = Some 1, r_recordsCreated = Some 1 \<rparr>,
          d\<lparr> measurementCollection :=
                measurementCollection d
                  @ [measurementDoc exStationB exParameter (JNumber x) False ct (e_now e)],
              sensorCollection :=
                updateOne (\<lambda>s. s_oid s = s_oid exSensorB)
                  (\<lambda>s. s\<lparr> s_value := JNumber x, s_lastUpdated := Some (e_now e),
                           s_isSimulated := Some False \<rparr>)
                  (sensorCollection d),
              stationCollection :=
                updateOne (\<lambda>s. st_oid s = st_oid exStationB)
                  (\<lambda>s. s\<lparr> st_lastDataUpdate := Some (e_now e) \<rparr>)
                  (stationCollection d) \<rparr>)"
    unfolding processStationTry_sensors [OF ex_not_missing(2) exEnv_latest [OF assms(1)]
        exPayload_nonempty assms(2,7) ne exPayload_map] sensorLoop.simps ps
    using assms(6) by simp
  show ?thesis unfolding processStation_def tr by simp
qed

lemma exStation_fault_run:
  assumes "\<not> missingId stn" and "e_net e = e_net (exEnv v)"
    and "e_dbFault e (FindSensors (st_oid stn)) = Some msg"
  shows "processStationTry e stn ct d = (Inl (Failure msg), d)"
    and "processStation e stn ct d
       = (\<lparr> success = False, reason = R_error, r_error = Some (Failure msg),
            r_sensorsProcessed = None, r_recordsCreated = None \<rparr>, d)"
proof -
  show t: "processStationTry e stn ct d = (Inl (Failure msg), d)"
    unfolding processStationTry_def using assms(1,3) exPayload_nonempty [of v]
    by (simp add: exEnv_latest [OF assms(2)])
  show "processStation e stn ct d
       = (\<lparr> success = False, reason = R_error, r_error = Some (Failure msg),
            r_sensorsProcessed = None, r_recordsCreated = None \<rparr>, d)"
    unfolding processStation_def t by simp
qed

lemma exDb_stations: "filter inLaBounds (stationCollection exDb) = [exStationA, exStationB]"
  by (simp add: exDb_def inLaBounds_def exStationA_def exStationB_def minLat_def maxLat_def
      minLng_def maxLng_def)

lemma ex_slice: "laStations [exStationA, exStationB] 0 50 = [exStationA, exStationB]"
  by (simp add: laStations_nonneg)

lemma ex_hour: "alignHour (fixedZone 0) 1700000123456 = 1699999200000"
  by (simp add: alignHour_fixed)

text \<open>
  The theorem at a run over the two stations of the example, when the store fails the query
  for the sensors of station A: the exception is converted into the outcome \<open>error\<close>,
  station B is processed and its measurement written, and the checkpoint is upserted.
\<close>

theorem partial_failure_isolation_witness:
  "e_dbFault ((exEnv (JNumber 12))\<lparr> e_dbFault :=
        (\<lambda>op. if op = FindSensors 1 then Some ''timeout'' else None) \<rparr>) FindStations = None
   \<and> filter inLaBounds (stationCollection exDb) \<noteq> []
   \<and> (\<forall>n. e_dbFault ((exEnv (JNumber 12))\<lparr> e_dbFault :=
        (\<lambda>op. if op = FindSensors 1 then Some ''timeout'' else None) \<rparr>) (UpsertProgress n) = None)
   \<and> laStations (filter inLaBounds (stationCollection exDb)) 0 50 = [exStationA, exStationB]
   \<and> processStationTry ((exEnv (JNumber 12))\<lparr> e_dbFault :=
        (\<lambda>op. if op = FindSensors 1 then Some ''timeout'' else None) \<rparr>)
        exStationA 1699999200000 exDb = (Inl (Failure ''timeout''), exDb)
   \<and> handler ((exEnv (JNumber 12))\<lparr> e_dbFault :=
        (\<lambda>op. if op = FindSensors 1 then Some ''timeout'' else None) \<rparr>) 50 0 exDb
       = (Ok200 \<lparr> res_total = 2, successful = 1, failed = 1,
                  failureReasons = (\<lambda>why. 0)(R_error := 1),
                  res_sensorsProcessed = 1, res_recordsCreated = 1,
                  res_paging = pagingOf [exStationA, exStationB] 0 50 \<rparr>,
          \<lparr> stationCollection =
              [exStationA, exStationB\<lparr> st_lastDataUpdate := Some 1700000123456 \<rparr>],
            sensorCollection = [exSensorA, cache (JNumber 12) 1700000123456 False exSensorB],
            measurementCollection =
              [measurementDoc exStationB exParameter (JNumber 12) False 1699999200000
                 1700000123456],
            progressCollection =
              Some \<lparr> cp_lastRunTime = 1700000123456, cp_lastOffset = 0, cp_nextOffset = 0,
                     cp_totalStations = 2, cp_batchesCompleted = 1, cp_totalBatches = 1,
                     cp_isFullyComplete = True \<rparr> \<rparr>)"
proof -
  let ?F = "(exEnv (JNumber 12))\<lparr> e_dbFault :=
        (\<lambda>op. if op = FindSensors 1 then Some ''timeout'' else None) \<rparr>"
  let ?ct = "1699999200000 :: int"
  have a: "e_dbFault ?F FindStations = None" by simp
  have b: "filter inLaBounds (stationCollection exDb) \<noteq> []" by (simp add: exDb_stations)
  have c: "\<forall>n. e_dbFault ?F (UpsertProgress n) = None" by simp
  have s: "laStations (filter inLaBounds (stationCollection exDb)) 0 50 = [exStationA, exStationB]"
    by (simp add: exDb_stations ex_slice)
  have ct: "alignHour (e_zone ?F) (e_now ?F) = ?ct"
    by (simp add: exEnv_def ex_hour)
  have n: "e_net ?F = e_net (exEnv (JNumber 12))" by simp
  have oA: "st_oid exStationA = 1" and oB: "st_oid exStationB = 2" and oS: "s_oid exSensorB = 12"
    by (simp_all add: exStationA_def exStationB_def exSensorB_def)
  have fA: "e_dbFault ?F (FindSensors (st_oid exStationA)) = Some ''timeout''" by (simp add: oA)
  note rA = exStation_fault_run [OF ex_not_missing(1) n fA, of ?ct exDb]
  have rB: "processStation ?F exStationB ?ct exDb
       = (\<lparr> success = True, reason = R_success, r_error = None,
            r_sensorsProcessed = Some 1, r_recordsCreated = Some 1 \<rparr>,
          exDb\<lparr> measurementCollection :=
                measurementCollection exDb
                  @ [measurementDoc exStationB exParameter (JNumber 12) False ?ct (e_now ?F)],
              sensorCollection :=
                updateOne (\<lambda>s. s_oid s = s_oid exSensorB)
                  (\<lambda>s. s\<lparr> s_value := JNumber 12, s_lastUpdated := Some (e_now ?F),
                           s_isSimulated := Some False \<rparr>)
                  (sensorCollection exDb),
              stationCollection :=
                updateOne (\<lambda>s. st_oid s = st_oid exStationB)
                  (\<lambda>s. s\<lparr> st_lastDataUpdate := Some (e_now ?F) \<rparr>)
                  (stationCollection exDb) \<rparr>)"
    by (rule exStationB_run_ops [OF n _ _ _ _ _ exDb_sensors(2) exDb_countKey])
      (simp_all add: oB)
  have run: "runSites ?F ?ct [exStationA, exStationB] exDb
      = ([\<lparr> success = False, reason = R_error, r_error = Some (Failure ''timeout''),
            r_sensorsProcessed = None, r_recordsCreated = None \<rparr>,
          \<lparr> success = True, reason = R_success, r_error = None,
            r_sensorsProcessed = Some 1, r_recordsCreated = Some 1 \<rparr>],
         exDb\<lparr> measurementCollection :=
                measurementCollection exDb
                  @ [measurementDoc exStationB exParameter (JNumber 12) False ?ct (e_now ?F)],
              sensorCollection :=
                updateOne (\<lambda>s. s_oid s = s_oid exSensorB)
                  (\<lambda>s. s\<lparr> s_value := JNumber 12, s_lastUpdated := Some (e_now ?F),
                           s_isSimulated := Some False \<rparr>)
                  (sensorCollection exDb),
              stationCollection :=
                updateOne (\<lambda>s. st_oid s = st_oid exStationB)
                  (\<lambda>s. s\<lparr> st_lastDataUpdate := Some (e_now ?F) \<rparr>)
                  (stationCollection exDb) \<rparr>)"
    using rA(2) rB by (simp add: runSites_Cons runSites_Nil)
  from partial_failure_isolation [OF a b c, of 0 50] obtain rs dS where
    r: "runSites ?F (alignHour (e_zone ?F) (e_now ?F))
          (laStations (filter inLaBounds (stationCollection exDb)) 0 50) exDb = (rs, dS)"
    and h: "handler ?F 50 0 exDb
        = (Ok200 (foldl tallyResult
                    \<lparr> res_total = length (laStations (filter inLaBounds (stationCollection exDb))
                                            0 50),
                      successful = 0, failed = 0, failureReasons = (\<lambda>why. 0),
                      res_sensorsProcessed = 0, res_recordsCreated = 0,
                      res_paging = pagingOf (filter inLaBounds (stationCollection exDb))
                                     0 50 \<rparr> rs),
           if laStations (filter inLaBounds (stationCollection exDb)) 0 50 = [] then exDb
           else dS\<lparr> progressCollection :=
                  Some (checkpointOf ?F 0 50
                          (length (filter inLaBounds (stationCollection exDb)))
                          ((length (laStations (filter inLaBounds (stationCollection exDb))
                                      0 50) + batchSize - 1) div batchSize)) \<rparr>)"
    by blast
  from r have rs: "rs = [\<lparr> success = False, reason = R_error, r_error = Some (Failure ''timeout''),
            r_sensorsProcessed = None, r_recordsCreated = None \<rparr>,
          \<lparr> success = True, reason = R_success, r_error = None,
            r_sensorsProcessed = Some 1, r_recordsCreated = Some 1 \<rparr>]"
    and dS: "dS = exDb\<lparr> measurementCollection :=
                measurementCollection exDb
                  @ [measurementDoc exStationB exParameter (JNumber 12) False ?ct (e_now ?F)],
              sensorCollection :=
                updateOne (\<lambda>s. s_oid s = s_oid exSensorB)
                  (\<lambda>s. s\<lparr> s_value := JNumber 12, s_lastUpdated := Some (e_now ?F),
                           s_isSimulated := Some False \<rparr>)
                  (sensorCollection exDb),
              stationCollection :=
                updateOne (\<lambda>s. st_oid s = st_oid exStationB)
                  (\<lambda>s. s\<lparr> st_lastDataUpdate := Some (e_now ?F) \<rparr>)
                  (stationCollection exDb) \<rparr>"
    unfolding ct s run by simp_all
  have h1: "handler ?F 50 0 exDb
        = (Ok200 (foldl tallyResult
                    \<lparr> res_total = 2, successful = 0, failed = 0, failureReasons = (\<lambda>why. 0),
                      res_sensorsProcessed = 0, res_recordsCreated = 0,
                      res_paging = pagingOf [exStationA, exStationB] 0 50 \<rparr> rs),
           dS\<lparr> progressCollection := Some (checkpointOf ?F 0 50 2 1) \<rparr>)"
    using h unfolding exDb_stations ex_slice by (simp add: batchSize_def numeral_2_eq_2)
  have h': "handler ?F 50 0 exDb
       = (Ok200 \<lparr> res_total = 2, successful = 1, failed = 1,
                  failureReasons = (\<lambda>why. 0)(R_error := 1),
                  res_sensorsProcessed = 1, res_recordsCreated = 1,
                  res_paging = pagingOf [exStationA, exStationB] 0 50 \<rparr>,
          \<lparr> stationCollection =
              [exStationA, exStationB\<lparr> st_lastDataUpdate := Some 1700000123456 \<rparr>],
            sensorCollection = [exSensorA, cache (JNumber 12) 1700000123456 False exSensorB],
            measurementCollection =
              [measurementDoc exStationB exParameter (JNumber 12) False 1699999200000
                 1700000123456],
            progressCollection =
              Some \<lparr> cp_lastRunTime = 1700000123456, cp_lastOffset = 0, cp_nextOffset = 0,
                     cp_totalStations = 2, cp_batchesCompleted = 1, cp_totalBatches = 1,
                     cp_isFullyComplete = True \<rparr> \<rparr>)"
    using h1 unfolding rs dS
    by (simp add: tallyResult_def checkpointOf_def nextOffset_def endOffset_def batchSize_def
        exDb_def cache_def exSensorA_def exSensorB_def exStationA_def exStationB_def exEnv_def)
  from a b c s rA(1) h' show ?thesis by blast
qed

text \<open>
  Claim C7 as stated fails for the update of the checkpoint. When the store stops answering
  after the query for the stations, the exception of each site is caught and converted into
  the outcome \<open>error\<close>, but the upsert of the checkpoint after the batch throws as well,
  outside the boundary of the sites: the run answers with status 500 and no checkpoint is
  written.
\<close>

theorem checkpoint_update_counterexample:
  "laStations (filter inLaBounds (stationCollection exDb)) 0 50 = [exStationA, exStationB]
   \<and> processStation ((exEnv (JNumber 12))\<lparr> e_dbFault :=
          (\<lambda>op. if op = FindStations then None else Some ''connection closed'') \<rparr>)
        exStationA 1699999200000 exDb
       = (\<lparr> success = False, reason = R_error, r_error = Some (Failure ''connection closed''),
            r_sensorsProcessed = None, r_recordsCreated = None \<rparr>, exDb)
   \<and> processStation ((exEnv (JNumber 12))\<lparr> e_dbFault :=
          (\<lambda>op. if op = FindStations then None else Some ''connection closed'') \<rparr>)
        exStationB 1699999200000 exDb
       = (\<lparr> success = False, reason = R_error, r_error = Some (Failure ''connection closed''),
            r_sensorsProcessed = None, r_recordsCreated = None \<rparr>, exDb)
   \<and> handler ((exEnv (JNumber 12))\<lparr> e_dbFault :=
          (\<lambda>op. if op = FindStations then None else Some ''connection closed'') \<rparr>) 50 0 exDb
       = (Error500 (Failure ''connection closed''), exDb)
   \<and> progressCollection exDb = None"
proof -
  let ?G = "(exEnv (JNumber 12))\<lparr> e_dbFault :=
          (\<lambda>op. if op = FindStations then None else Some ''connection closed'') \<rparr>"
  let ?ct = "1699999200000 :: int"
  have s: "laStations (filter inLaBounds (stationCollection exDb)) 0 50 = [exStationA, exStationB]"
    by (simp add: exDb_stations ex_slice)
  have ct: "alignHour (e_zone ?G) (e_now ?G) = ?ct"
    by (simp add: exEnv_def ex_hour)
  have n: "e_net ?G = e_net (exEnv (JNumber 12))" by simp
  have f: "e_dbFault ?G (FindSensors oid) = Some ''connection closed''" for oid by simp
  note rA = exStation_fault_run [OF ex_not_missing(1) n f, of ?ct exDb]
  note rB = exStation_fault_run [OF ex_not_missing(2) n f, of ?ct exDb]
  have pb: "processBatch ?G ?ct [exStationA, exStationB] exDb
      = ([\<lparr> success = False, reason = R_error, r_error = Some (Failure ''connection closed''),
            r_sensorsProcessed = None, r_recordsCreated = None \<rparr>,
          \<lparr> success = False, reason = R_error, r_error = Some (Failure ''connection closed''),
            r_sensorsProcessed = None, r_recordsCreated = None \<rparr>], exDb)"
    using rA(2) rB(2) by simp
  have sl: "js_slice [exStationA, exStationB] (int 0) (int (0 + batchSize))
      = [exStationA, exStationB]"
    by (simp add: js_slice_def relIndex_def batchSize_def)
  have bl: "batchLoop ?G ?ct [exStationA, exStationB] 0 50 tot 0 res exDb
      = (Inl (Failure ''connection closed''), exDb)" for tot res
    by (subst batchLoop.simps) (simp only: sl pb, simp)
  have h: "handler ?G 50 0 exDb = (Error500 (Failure ''connection closed''), exDb)"
    unfolding handler_def Let_def exDb_stations ex_slice ct
    by (simp add: bl)
  have p: "progressCollection exDb = None" by (simp add: exDb_def)
  from s rA(2) rB(2) h p show ?thesis by blast
qed

section \<open>Properties of a run past the last site\<close>

lemma laStations_beyond:
  assumes "int (length xs) \<le> offset"
  shows "laStations xs offset maxPerRun = []"
proof -
  from assms have "0 \<le> offset" by simp
  with assms have "relIndex (length xs) offset = length xs"
    by (simp add: relIndex_def)
  moreover have "relIndex (length xs) fin \<le> length xs" for fin
    by (auto simp: relIndex_def max_def)
  ultimately show ?thesis by (simp add: laStations_def js_slice_def Let_def)
qed

lemma batchLoop_Nil: "batchLoop e ct [] offset maxPerRun totalSt 0 res d = (Inr res, d)"
  by (subst batchLoop.simps) simp

lemma handler_empty_slice:
  assumes "laStations (filter inLaBounds (stationCollection d)) offset maxPerRun = []"
  shows "handler e maxPerRun offset d
     = (case e_dbFault e FindStations of
          Some msg \<Rightarrow> Error500 (Failure msg)
        | None \<Rightarrow>
            if filter inLaBounds (stationCollection d) = [] then NotFound404
            else Ok200 \<lparr> res_total = 0, successful = 0, failed = 0,
                         failureReasons = (\<lambda>why. 0), res_sensorsProcessed = 0,
                         res_recordsCreated = 0,
                         res_paging = pagingOf (filter inLaBounds (stationCollection d))
                                        offset maxPerRun \<rparr>,
        d)"
  unfolding handler_def Let_def assms batchLoop_Nil
  by (simp split: option.splits)

text \<open>
  Claim C3, as amended. For a run whose starting offset is at least the total site count,
  the slice is empty, the run processes no site (a summary, when the run gives one, counts
  none), and the run does not update the checkpoint: the record, and the rest of the store
  with it, is left as it was.
\<close>

theorem empty_slice_leaves_checkpoint:
  assumes "int (length (filter inLaBounds (stationCollection d))) \<le> offset"
  shows "laStations (filter inLaBounds (stationCollection d)) offset maxPerRun = []
       \<and> snd (handler e maxPerRun offset d) = d
       \<and> progressCollection (snd (handler e maxPerRun offset d)) = progressCollection d
       \<and> (\<forall>res. fst (handler e maxPerRun offset d) = Ok200 res \<longrightarrow>
             res_total res = 0 \<and> successful res = 0 \<and> failed res = 0
             \<and> res_sensorsProcessed res = 0 \<and> res_recordsCreated res = 0)"
proof -
  let ?all = "filter inLaBounds (stationCollection d)"
  have sl: "laStations ?all offset maxPerRun = []"
    using assms by (rule laStations_beyond)
  note h = handler_empty_slice [OF sl, of e]
  have same: "snd (handler e maxPerRun offset d) = d"
    unfolding h by simp
  have r: "\<forall>res. fst (handler e maxPerRun offset d) = Ok200 res \<longrightarrow>
             res_total res = 0 \<and> successful res = 0 \<and> failed res = 0
             \<and> res_sensorsProcessed res = 0 \<and> res_recordsCreated res = 0"
    unfolding h by (auto split: option.splits if_splits)
  from sl same r show ?thesis by simp
qed

text \<open>
  The theorem at the two stations of the example and starting offset 2: the run answers
  with status 200 and a summary that counts no site, and leaves the store as it was.
\<close>

theorem empty_slice_leaves_checkpoint_witness:
  "int (length (filter inLaBounds (stationCollection exDb))) \<le> 2
   \<and> laStations (filter inLaBounds (stationCollection exDb)) 2 50 = []
   \<and> handler (exEnv JNull) 50 2 exDb
       = (Ok200 \<lparr> res_total = 0, successful = 0, failed = 0,
                  failureReasons = (\<lambda>why. 0), res_sensorsProcessed = 0,
                  res_recordsCreated = 0,
                  res_paging = pagingOf (filter inLaBounds (stationCollection exDb)) 2 50 \<rparr>,
          exDb)
   \<and> progressCollection (snd (handler (exEnv JNull) 50 2 exDb)) = progressCollection exDb"
proof -
  have all: "filter inLaBounds (stationCollection exDb) = [exStationA, exStationB]"
    by (simp add: exDb_def inLaBounds_def exStationA_def exStationB_def minLat_def maxLat_def
      minLng_def maxLng_def)
  have a: "int (length (filter inLaBounds (stationCollection exDb))) \<le> 2"
    unfolding all by simp
  note th = empty_slice_leaves_checkpoint [OF a, of 50 "exEnv JNull"]
  have f: "e_dbFault (exEnv JNull) FindStations = None" by (simp add: exEnv_def)
  have ne: "filter inLaBounds (stationCollection exDb) \<noteq> []" unfolding all by simp
  from th have sl: "laStations (filter inLaBounds (stationCollection exDb)) 2 50 = []"
    by (rule conjunct1)
  have h: "handler (exEnv JNull) 50 2 exDb
       = (Ok200 \<lparr> res_total = 0, successful = 0, failed = 0,
                  failureReasons = (\<lambda>why. 0), res_sensorsProcessed = 0,
                  res_recordsCreated = 0,
                  res_paging = pagingOf (filter inLaBounds (stationCollection exDb)) 2 50 \<rparr>,
          exDb)"
    unfolding handler_empty_slice [OF sl] using f ne by simp
  from th have p: "progressCollection (snd (handler (exEnv JNull) 50 2 exDb))
      = progressCollection exDb"
    by simp
  from a sl h p show ?thesis by blast
qed

text \<open>
  Claim C3, as stated, fails: with two sites and starting offset 2 the run writes no
  checkpoint. Started without a checkpoint record it leaves none; started with the record
  of an earlier run whose next offset is 1, it leaves that record, next offset 1, in place.
\<close>

theorem empty_slice_checkpoint_counterexample:
  "int (length (filter inLaBounds (stationCollection exDb))) \<le> 2
   \<and> progressCollection (snd (handler (exEnv JNull) 50 2 exDb)) = None
   \<and> cp_nextOffset (checkpointOf (exEnv JNull) 0 1 2 1) = 1
   \<and> progressCollection
        (snd (handler (exEnv JNull) 50 2
           (exDb\<lparr> progressCollection := Some (checkpointOf (exEnv JNull) 0 1 2 1) \<rparr>)))
       = Some (checkpointOf (exEnv JNull) 0 1 2 1)"
proof -
  let ?d = "exDb\<lparr> progressCollection := Some (checkpointOf (exEnv JNull) 0 1 2 1) \<rparr>"
  have all: "filter inLaBounds (stationCollection exDb) = [exStationA, exStationB]"
    by (simp add: exDb_def inLaBounds_def exStationA_def exStationB_def minLat_def maxLat_def
      minLng_def maxLng_def)
  have all': "filter inLaBounds (stationCollection ?d) = [exStationA, exStationB]"
    using all by simp
  have sl: "laStations [exStationA, exStationB] 2 50 = []"
    by (rule laStations_beyond) simp
  have sl1: "laStations (filter inLaBounds (stationCollection exDb)) 2 50 = []"
    unfolding all by (rule sl)
  have sl2: "laStations (filter inLaBounds (stationCollection ?d)) 2 50 = []"
    unfolding all' by (rule sl)
  have a: "snd (handler (exEnv JNull) 50 2 exDb) = exDb"
    unfolding handler_empty_slice [OF sl1] by simp
  have b: "snd (handler (exEnv JNull) 50 2 ?d) = ?d"
    unfolding handler_empty_slice [OF sl2] by simp
  have n: "cp_nextOffset (checkpointOf (exEnv JNull) 0 1 2 1) = 1"
    by (simp add: checkpointOf_def nextOffset_def endOffset_def)
  have p: "progressCollection exDb = None" by (simp add: exDb_def)
  have l: "int (length (filter inLaBounds (stationCollection exDb))) \<le> 2"
    unfolding all by simp
  from a b n p l show ?thesis by simp
qed

end
